theory Spec2Isabelle
  imports Main
begin

section \<open>Data model of the staking pool contract\<close>

text \<open>
  The contract under study is the \<^verbatim>\<open>StakingPool\<close> class (the second, current version in the
  source: program version 10).  Addresses are 32-byte public keys; they are modelled as
  natural numbers, the all-zero key being \<open>0\<close>.  Every \<^verbatim>\<open>uint64\<close> of the contract is a
  natural number, and the run-time checks of the virtual machine are written out: an
  addition or multiplication whose result does not fit 64 bits, a subtraction below zero
  and a failed \<^verbatim>\<open>assert\<close> all abort the call.  An aborted call is a value \<open>Inl e\<close>; the
  ledger then keeps the state it had before the call.  The loops of the contract raise
  their opcode budget as they go (\<^verbatim>\<open>increaseOpcodeBudget\<close>); this has no effect on the
  state and is left out.
\<close>

type_synonym address = nat

definition zeroAddress :: address where
  "zeroAddress = 0"

record StakedInfo =
  account :: address
  balance :: nat
  totalRewarded :: nat
  rewardTokenBalance :: nat
  entryTime :: nat

text \<open>The fields of the registry's validator configuration that the pool reads.\<close>

record ValidatorConfig =
  owner :: address
  manager :: address
  rewardTokenId :: nat
  rewardPerPayout :: nat
  payoutEveryXMins :: nat
  percentToValidator :: nat
  validatorCommissionAddress :: address

record ValidatorState =
  numPools :: nat
  totalStakers :: nat
  vsTotalAlgoStaked :: nat
  rewardTokenHeldBack :: nat

record ValidatorPoolKey =
  keyId :: nat
  keyPoolId :: nat
  keyPoolAppId :: nat

record PayTxn =
  paySender :: address
  payReceiver :: address
  payAmount :: nat

text \<open>
  Global state of one pool.  \<open>lastPayout\<close> is a global-state key that may not exist yet
  (\<^verbatim>\<open>this.lastPayout.exists\<close>), and \<open>stakers\<close> is a box that exists only after
  \<^verbatim>\<open>initStorage\<close>; both are options.
\<close>

record pool =
  creatingValidatorContractAppId :: nat
  validatorId :: nat
  poolId :: nat
  numStakers :: nat
  totalAlgoStaked :: nat
  minEntryStake :: nat
  lastPayout :: "nat option"
  epochNumber :: nat
  algodVer :: string
  stakers :: "StakedInfo list option"

text \<open>
  Inner transactions sent by the pool.  They are outputs of the model, in the order the
  code issues them.
\<close>

datatype itxn =
    Payment nat address string
  | AssetTransfer nat address nat
  | CallSetTokenPayoutRatio nat
  | CallProxiedSetTokenPayoutRatio nat ValidatorPoolKey
  | CallStakeRemoved ValidatorPoolKey address nat nat bool
  | CallStakeUpdatedViaRewards ValidatorPoolKey nat nat nat nat
  | OnlineKeyRegistration string string string nat nat nat
  | OfflineKeyRegistration
  | CallVerifyNfdAddr nat string nat address

text \<open>
  What a call can see of the chain and of the registry.  The registry contract and the
  constants module are not part of the sources at hand, so the answers of the registry's
  read-only methods and the values of the imported constants are parameters of every
  operation.  \<open>innerTxnAccepted\<close> is the verdict of the chain on an inner transaction:
  an asset transfer to an account that has not opted in to the asset, a payment that the
  balance of the pool does not cover and a registry call that fails in the registry are
  refused, and a refused inner transaction aborts the call that issued it.  A refusal can
  only turn a successful call into an aborted one, so it matters where a call is said to
  succeed: \<^verbatim>\<open>removeStake\<close> consults the verdict for each inner transaction it issues.
\<close>

record env =
  txnSender :: address
  latestTimestamp :: nat
  thisAppId :: nat
  thisAppAddress :: address
  accountBalance :: "address \<Rightarrow> nat"
  accountMinBalance :: "address \<Rightarrow> nat"
  assetBalance :: "address \<Rightarrow> nat \<Rightarrow> nat"
  appAddress :: "nat \<Rightarrow> address"
  getValidatorConfig :: "nat \<Rightarrow> ValidatorConfig"
  getValidatorState :: "nat \<Rightarrow> ValidatorState"
  getPoolAppId :: "nat \<Rightarrow> nat \<Rightarrow> nat"
  getValidatorOwnerAndManager :: "nat \<Rightarrow> address \<times> address"
  setTokenPayoutRatio :: "nat \<Rightarrow> nat list"
  innerTxnAccepted :: "itxn \<Rightarrow> bool"
  feeSinkAddr :: address
  nfdRegistryAppId :: nat
  MAX_STAKERS_PER_POOL :: nat
  MIN_ALGO_STAKE_PER_POOL :: nat
  MAX_VALIDATOR_SOFT_PCT_OF_ONLINE_1DECIMAL :: nat
  ALGORAND_ACCOUNT_MIN_BALANCE :: nat
  ASSET_HOLDING_FEE :: nat

datatype error =
    AssertFailed string
  | Thrown string
  | Overflow
  | Underflow
  | WideRatioFailed
  | BoxMissing
  | IndexOutOfRange
  | InnerTxnRefused

section \<open>Checked arithmetic\<close>

definition u64 :: nat where
  "u64 = 2 ^ 64"

definition u128 :: nat where
  "u128 = 2 ^ 128"

definition bindE :: "error + 'a \<Rightarrow> ('a \<Rightarrow> error + 'b) \<Rightarrow> error + 'b" where
  "bindE m f = (case m of Inl e \<Rightarrow> Inl e | Inr x \<Rightarrow> f x)"

definition add64 :: "nat \<Rightarrow> nat \<Rightarrow> error + nat" where
  "add64 a b = (if a + b < u64 then Inr (a + b) else Inl Overflow)"

definition sub64 :: "nat \<Rightarrow> nat \<Rightarrow> error + nat" where
  "sub64 a b = (if b \<le> a then Inr (a - b) else Inl Underflow)"

definition mul64 :: "nat \<Rightarrow> nat \<Rightarrow> error + nat" where
  "mul64 a b = (if a * b < u64 then Inr (a * b) else Inl Overflow)"

text \<open>
  \<^verbatim>\<open>wideRatio\<close> is a primitive of the contract language: the product of the numerators
  divided by the product of the denominators, computed with 128-bit intermediates.  It
  aborts when a product does not fit 128 bits, when the divisor is zero and when the
  quotient does not fit 64 bits.
\<close>

definition wideRatio :: "nat list \<Rightarrow> nat list \<Rightarrow> error + nat" where
  "wideRatio ns ds =
     (let n = prod_list ns; d = prod_list ds in
      if u128 \<le> n \<or> u128 \<le> d \<or> d = 0 then Inl WideRatioFailed
      else if u64 \<le> n div d then Inl WideRatioFailed
      else Inr (n div d))"

section \<open>Creation and storage\<close>

text \<open>
  \<^verbatim>\<open>createApplication\<close>: the last payout time is set to the creation time, "to establish
  baseline".
\<close>

definition createApplication :: "env \<Rightarrow> nat \<Rightarrow> nat \<Rightarrow> nat \<Rightarrow> nat \<Rightarrow> error + pool" where
  "createApplication e creatingContractId vId pId minStake =
     (if creatingContractId = 0 \<and> vId \<noteq> 0 then Inl (AssertFailed ''validatorId === 0'')
      else if creatingContractId = 0 \<and> pId \<noteq> 0 then Inl (AssertFailed ''poolId === 0'')
      else if creatingContractId \<noteq> 0 \<and> vId = 0 then Inl (AssertFailed ''validatorId !== 0'')
      else if creatingContractId \<noteq> 0 \<and> pId = 0 then Inl (AssertFailed ''poolId !== 0'')
      else if minStake < MIN_ALGO_STAKE_PER_POOL e
        then Inl (AssertFailed ''minEntryStake >= MIN_ALGO_STAKE_PER_POOL'')
      else Inr \<lparr> creatingValidatorContractAppId = creatingContractId,
                 validatorId = vId,
                 poolId = pId,
                 numStakers = 0,
                 totalAlgoStaked = 0,
                 minEntryStake = minStake,
                 lastPayout = Some (latestTimestamp e),
                 epochNumber = 0,
                 algodVer = [],
                 stakers = None \<rparr>)"

definition emptySlot :: StakedInfo where
  "emptySlot = \<lparr> account = zeroAddress, balance = 0, totalRewarded = 0,
                  rewardTokenBalance = 0, entryTime = 0 \<rparr>"

definition costForBoxStorage :: "nat \<Rightarrow> nat" where
  "costForBoxStorage totalNumBytes = 2500 + totalNumBytes * 400"

text \<open>
  \<^verbatim>\<open>initStorage\<close>: the box of \<^verbatim>\<open>MAX_STAKERS_PER_POOL\<close> zeroed slots is created once; a record
  takes 64 bytes (a 32-byte address and four 8-byte integers).
\<close>

definition initStorage :: "env \<Rightarrow> PayTxn \<Rightarrow> pool \<Rightarrow> error + pool \<times> itxn list" where
  "initStorage e mbrPayment s =
     (if stakers s \<noteq> None then Inl (AssertFailed ''staking pool already initialized'')
      else
        let validatorConfig = getValidatorConfig e (validatorId s);
            isTokenEligible = (rewardTokenId validatorConfig \<noteq> 0);
            extraMBR = (if isTokenEligible \<and> poolId s = 1 then ASSET_HOLDING_FEE e else 0);
            PoolInitMbr = ALGORAND_ACCOUNT_MIN_BALANCE e + extraMBR
                          + costForBoxStorage (7 + 64 * MAX_STAKERS_PER_POOL e)
        in if u64 \<le> PoolInitMbr then Inl Overflow
           else if payAmount mbrPayment \<noteq> PoolInitMbr then Inl (AssertFailed ''verifyPayTxn'')
           else Inr (s\<lparr> stakers := Some (replicate (MAX_STAKERS_PER_POOL e) emptySlot) \<rparr>,
                     if isTokenEligible \<and> poolId s = 1
                     then [AssetTransfer (rewardTokenId validatorConfig) (thisAppAddress e) 0]
                     else []))"

section \<open>Stake ledger operations\<close>

definition ALGORAND_STAKING_BLOCK_DELAY :: nat where
  "ALGORAND_STAKING_BLOCK_DELAY = 320"

definition AVG_BLOCK_TIME_SECS :: nat where
  "AVG_BLOCK_TIME_SECS = 28"

definition getEntryTime :: "env \<Rightarrow> error + nat" where
  "getEntryTime e =
     add64 (latestTimestamp e) ((ALGORAND_STAKING_BLOCK_DELAY * AVG_BLOCK_TIME_SECS) div 10)"

text \<open>
  The scan of \<^verbatim>\<open>addStake\<close>.  The loop stops at the first slot that holds the staker (result
  \<open>Inl i\<close>, the index of that slot) or at the first empty slot (\<^verbatim>\<open>firstEmpty = i + 1; break\<close>,
  result \<open>Inr (i + 1)\<close>), whichever comes first; \<open>Inr 0\<close> when the loop runs to the end.
\<close>

fun addStake_scan :: "address \<Rightarrow> StakedInfo list \<Rightarrow> nat \<Rightarrow> nat + nat" where
  "addStake_scan staker [] i = Inr 0"
| "addStake_scan staker (cmpStaker # rest) i =
     (if account cmpStaker = staker then Inl i
      else if account cmpStaker = zeroAddress then Inr (i + 1)
      else addStake_scan staker rest (i + 1))"

definition addStake :: "env \<Rightarrow> PayTxn \<Rightarrow> address \<Rightarrow> pool \<Rightarrow> error + (pool \<times> itxn list) \<times> nat" where
  "addStake e stakedAmountPayment staker s =
     (case stakers s of
        None \<Rightarrow> Inl (AssertFailed ''this.stakers.exists'')
      | Some xs \<Rightarrow>
        if txnSender e \<noteq> appAddress e (creatingValidatorContractAppId s)
          then Inl (AssertFailed ''sender is the creating validator contract'')
        else if staker = zeroAddress then Inl (AssertFailed ''staker !== zeroAddress'')
        else if paySender stakedAmountPayment \<noteq> appAddress e (creatingValidatorContractAppId s)
                \<or> payReceiver stakedAmountPayment \<noteq> thisAppAddress e
          then Inl (AssertFailed ''verifyPayTxn'')
        else
          bindE (getEntryTime e) (\<lambda>entryTime.
            case addStake_scan staker xs 0 of
              Inl i \<Rightarrow>
                bindE (add64 (balance (xs ! i)) (payAmount stakedAmountPayment)) (\<lambda>newBalance.
                bindE (add64 (totalAlgoStaked s) (payAmount stakedAmountPayment)) (\<lambda>newTotal.
                  Inr ((s\<lparr> stakers := Some (xs[i := (xs ! i)\<lparr> balance := newBalance,
                                                               entryTime := entryTime \<rparr>]),
                           totalAlgoStaked := newTotal \<rparr>, []), entryTime)))
            | Inr firstEmpty \<Rightarrow>
                if firstEmpty = 0 then Inl (Thrown ''Staking pool full'')
                else if payAmount stakedAmountPayment < minEntryStake s
                  then Inl (AssertFailed ''must stake at least the minimum for this pool'')
                else if account (xs ! (firstEmpty - 1)) \<noteq> zeroAddress
                  then Inl (AssertFailed ''slot is empty'')
                else
                  bindE (add64 (numStakers s) 1) (\<lambda>newNum.
                  bindE (add64 (totalAlgoStaked s) (payAmount stakedAmountPayment)) (\<lambda>newTotal.
                    Inr ((s\<lparr> stakers := Some (xs[firstEmpty - 1 :=
                                 \<lparr> account = staker,
                                   balance = payAmount stakedAmountPayment,
                                   totalRewarded = 0,
                                   rewardTokenBalance = 0,
                                   entryTime = entryTime \<rparr>]),
                             numStakers := newNum,
                             totalAlgoStaked := newTotal \<rparr>, []), entryTime)))))"

text \<open>
  The scans of \<^verbatim>\<open>removeStake\<close> and \<^verbatim>\<open>claimTokens\<close> visit every slot and act on the first one
  that holds the caller.
\<close>

fun findStaker :: "address \<Rightarrow> StakedInfo list \<Rightarrow> nat \<Rightarrow> nat option" where
  "findStaker staker [] i = None"
| "findStaker staker (cmpStaker # rest) i =
     (if account cmpStaker = staker then Some i else findStaker staker rest (i + 1))"

definition thisPoolKey :: "env \<Rightarrow> pool \<Rightarrow> ValidatorPoolKey" where
  "thisPoolKey e s = \<lparr> keyId = validatorId s, keyPoolId = poolId s, keyPoolAppId = thisAppId e \<rparr>"

text \<open>An inner transaction that the chain refuses aborts the call.\<close>

definition submit :: "env \<Rightarrow> itxn list \<Rightarrow> error + unit" where
  "submit e txns = (if list_all (innerTxnAccepted e) txns then Inr () else Inl InnerTxnRefused)"

definition removeStake :: "env \<Rightarrow> nat \<Rightarrow> pool \<Rightarrow> error + pool \<times> itxn list" where
  "removeStake e amountToUnstake0 s =
     (case stakers s of
        None \<Rightarrow> Inl BoxMissing
      | Some xs \<Rightarrow>
        let staker = txnSender e in
        case findStaker staker xs 0 of
          None \<Rightarrow> Inl (Thrown ''account not found'')
        | Some i \<Rightarrow>
            let cmpStaker = xs ! i;
                amountToUnstake = (if amountToUnstake0 = 0 then balance cmpStaker else amountToUnstake0)
            in
            if balance cmpStaker < amountToUnstake then Inl (Thrown ''Insufficient balance'')
            else
              bindE (sub64 (totalAlgoStaked s) amountToUnstake) (\<lambda>newTotal.
                let newBalance = balance cmpStaker - amountToUnstake;
                    amountRewardTokenRemoved = rewardTokenBalance cmpStaker;
                    tokenTxns =
                      (if rewardTokenBalance cmpStaker > 0 \<and> poolId s = 1
                       then [AssetTransfer (rewardTokenId (getValidatorConfig e (validatorId s)))
                               staker (rewardTokenBalance cmpStaker)]
                       else [])
                in
                bindE (submit e tokenTxns) (\<lambda>_.
                if \<not> (newBalance = 0 \<or> minEntryStake s \<le> newBalance)
                  then Inl (AssertFailed
                    ''cannot reduce balance below minimum allowed stake unless all is removed'')
                else
                  bindE (submit e [Payment amountToUnstake staker ''unstaked'']) (\<lambda>_.
                  bindE (if newBalance = 0 then sub64 (numStakers s) 1 else Inr (numStakers s))
                    (\<lambda>newNum.
                      let stakerRemoved = (newBalance = 0);
                          newStaker =
                            (if stakerRemoved
                             then cmpStaker\<lparr> account := zeroAddress, balance := newBalance,
                                             totalRewarded := 0, rewardTokenBalance := 0 \<rparr>
                             else cmpStaker\<lparr> balance := newBalance, rewardTokenBalance := 0 \<rparr>);
                          stakeRemoved = CallStakeRemoved (thisPoolKey e s) staker amountToUnstake
                                           amountRewardTokenRemoved stakerRemoved
                      in
                      bindE (submit e [stakeRemoved]) (\<lambda>_.
                        Inr (s\<lparr> stakers := Some (xs[i := newStaker]),
                                 numStakers := newNum,
                                 totalAlgoStaked := newTotal \<rparr>,
                             tokenTxns @
                             [Payment amountToUnstake staker ''unstaked'', stakeRemoved])))))))"

definition claimTokens :: "env \<Rightarrow> pool \<Rightarrow> error + pool \<times> itxn list" where
  "claimTokens e s =
     (case stakers s of
        None \<Rightarrow> Inl BoxMissing
      | Some xs \<Rightarrow>
        let staker = txnSender e in
        case findStaker staker xs 0 of
          None \<Rightarrow> Inl (Thrown ''account not found'')
        | Some i \<Rightarrow>
            let cmpStaker = xs ! i in
            if rewardTokenBalance cmpStaker = 0 then Inr (s, [])
            else
              Inr (s\<lparr> stakers := Some (xs[i := cmpStaker\<lparr> rewardTokenBalance := 0 \<rparr>]) \<rparr>,
                   (if poolId s = 1
                    then [AssetTransfer (rewardTokenId (getValidatorConfig e (validatorId s)))
                            staker (rewardTokenBalance cmpStaker)]
                    else []) @
                   [CallStakeRemoved (thisPoolKey e s) staker 0
                      (rewardTokenBalance cmpStaker) False]))"

section \<open>Epoch balance update\<close>

definition getCurrentOnlineStake :: nat where
  "getCurrentOnlineStake = 2000000000000000"

definition algoSaturationLevel :: "env \<Rightarrow> error + nat" where
  "algoSaturationLevel e =
     wideRatio [getCurrentOnlineStake, MAX_VALIDATOR_SOFT_PCT_OF_ONLINE_1DECIMAL e] [1000]"

text \<open>The locals that the two distribution loops read and update.\<close>

record payout =
  algoRewardAvail :: nat
  tokenRewardAvail :: nat
  tokenRewardPaidOut :: nat
  increasedStake :: nat
  partialStakersTotalStake :: nat

text \<open>
  The epoch gate: the configured epoch in seconds, and the check that a full epoch has
  passed since \<open>lastPayout\<close> whenever that key exists.
\<close>

definition epochInSecsOf :: "ValidatorConfig \<Rightarrow> error + nat" where
  "epochInSecsOf validatorConfig = mul64 (payoutEveryXMins validatorConfig) 60"

definition epochGate :: "env \<Rightarrow> pool \<Rightarrow> nat \<Rightarrow> error + unit" where
  "epochGate e s epochInSecs =
     (case lastPayout s of
        None \<Rightarrow> Inr ()
      | Some lp \<Rightarrow>
          bindE (sub64 (latestTimestamp e) lp) (\<lambda>secsSinceLastPayout.
            if secsSinceLastPayout < epochInSecs
            then Inl (AssertFailed ''Can't payout earlier than last payout + epoch time'')
            else Inr ()))"

text \<open>
  Pool 1 holds the reward token.  Another pool asks the registry for pool 1's
  application id and lets pool 1 take the snapshot of the payout ratio on its behalf.
\<close>

definition poolOneAppIDOf :: "env \<Rightarrow> pool \<Rightarrow> nat" where
  "poolOneAppIDOf e s =
     (if rewardTokenId (getValidatorConfig e (validatorId s)) \<noteq> 0 \<and> poolId s \<noteq> 1
      then getPoolAppId e (validatorId s) 1 else thisAppId e)"

definition poolOneAddressOf :: "env \<Rightarrow> pool \<Rightarrow> address" where
  "poolOneAddressOf e s =
     (if rewardTokenId (getValidatorConfig e (validatorId s)) \<noteq> 0 \<and> poolId s \<noteq> 1
      then appAddress e (poolOneAppIDOf e s) else thisAppAddress e)"

definition ratioTxns :: "env \<Rightarrow> pool \<Rightarrow> itxn list" where
  "ratioTxns e s =
     (if rewardTokenId (getValidatorConfig e (validatorId s)) \<noteq> 0
      then (if poolId s = 1 then [CallSetTokenPayoutRatio (validatorId s)]
            else [CallProxiedSetTokenPayoutRatio (poolOneAppIDOf e s) (thisPoolKey e s)])
      else [])"

text \<open>
  The token reward of this pool for the epoch: zero unless the validator pays a token and
  the token balance of pool 1 that is not held back covers one payout.  The subtraction
  of the amount held back is a \<^verbatim>\<open>uint64\<close> subtraction, and the snapshot is an array of the
  registry that the code indexes with \<^verbatim>\<open>poolId - 1\<close>: a read beyond the end of the array
  aborts the call, as every out-of-range read of the virtual machine does.
\<close>

definition epochTokenRewardAvail :: "env \<Rightarrow> pool \<Rightarrow> error + nat" where
  "epochTokenRewardAvail e s =
     (let validatorConfig = getValidatorConfig e (validatorId s);
          tokenPayoutRatio = setTokenPayoutRatio e (validatorId s);
          validatorState = getValidatorState e (validatorId s)
      in
      if rewardTokenId validatorConfig \<noteq> 0 then
        bindE (sub64 (assetBalance e (poolOneAddressOf e s) (rewardTokenId validatorConfig))
                     (rewardTokenHeldBack validatorState)) (\<lambda>tokenRewardBal.
          if rewardPerPayout validatorConfig \<le> tokenRewardBal then
            bindE (sub64 (poolId s) 1) (\<lambda>idx.
              if length tokenPayoutRatio \<le> idx then Inl IndexOutOfRange
              else wideRatio [rewardPerPayout validatorConfig, tokenPayoutRatio ! idx] [1000000])
          else Inr 0)
      else Inr 0)"

text \<open>
  Saturation and commission.  The result is the reward left for the stakers, the
  commission paid, the excess sent to the fee sink and the payments made.
\<close>

definition epochCommission ::
  "env \<Rightarrow> ValidatorConfig \<Rightarrow> ValidatorState \<Rightarrow> nat \<Rightarrow> nat \<Rightarrow> error + nat \<times> nat \<times> nat \<times> itxn list" where
  "epochCommission e validatorConfig validatorState algoSaturationAmt reward =
     (if algoSaturationAmt < vsTotalAlgoStaked validatorState then
        bindE (wideRatio [reward, algoSaturationAmt] [vsTotalAlgoStaked validatorState])
          (\<lambda>diminishedReward.
        bindE (sub64 reward diminishedReward) (\<lambda>excessToFeeSink.
          Inr (diminishedReward, 0, excessToFeeSink,
               [Payment excessToFeeSink (feeSinkAddr e) ''pool saturated, excess to fee sink''])))
      else if percentToValidator validatorConfig \<noteq> 0 then
        bindE (wideRatio [reward, percentToValidator validatorConfig] [1000000])
          (\<lambda>validatorCommissionPaidOut.
        bindE (sub64 reward validatorCommissionPaidOut) (\<lambda>rest.
          if 0 < validatorCommissionPaidOut then
            bindE (if manager validatorConfig \<noteq> validatorCommissionAddress validatorConfig
                   then bindE (sub64 (accountBalance e (manager validatorConfig))
                                     (accountMinBalance e (manager validatorConfig)))
                          (\<lambda>spendable. Inr (spendable < 1000000))
                   else Inr False) (\<lambda>lowManager.
              let managerTopOff =
                    (if lowManager
                     then (if validatorCommissionPaidOut < 1000000
                           then validatorCommissionPaidOut else 1000000)
                     else 0)
              in Inr (rest, validatorCommissionPaidOut, 0,
                      (if lowManager
                       then [Payment managerTopOff (manager validatorConfig)
                               ''validator reward to manager for funding epoch updates'']
                       else []) @
                      (if 0 < validatorCommissionPaidOut - managerTopOff
                       then [Payment (validatorCommissionPaidOut - managerTopOff)
                               (validatorCommissionAddress validatorConfig) ''validator reward'']
                       else [])))
          else Inr (rest, validatorCommissionPaidOut, 0, [])))
      else Inr (reward, 0, 0, []))"

text \<open>Pass A on one slot: the token credit and the algo credit of a partial-epoch staker.\<close>

definition partialTokenCredit ::
  "nat \<Rightarrow> nat \<Rightarrow> StakedInfo \<times> payout \<Rightarrow> error + StakedInfo \<times> payout" where
  "partialTokenCredit totalStaked timePercentage cp =
     (let cmpStaker = fst cp; p = snd cp in
      if 0 < tokenRewardAvail p then
        bindE (wideRatio [balance cmpStaker, tokenRewardAvail p, timePercentage] [totalStaked, 1000])
          (\<lambda>stakerTokenReward.
        bindE (sub64 (tokenRewardAvail p) stakerTokenReward) (\<lambda>avail.
        bindE (add64 (rewardTokenBalance cmpStaker) stakerTokenReward) (\<lambda>tokBal.
        bindE (add64 (tokenRewardPaidOut p) stakerTokenReward) (\<lambda>paid.
          Inr (cmpStaker\<lparr> rewardTokenBalance := tokBal \<rparr>,
               p\<lparr> tokenRewardAvail := avail, tokenRewardPaidOut := paid \<rparr>)))))
      else Inr cp)"

definition partialAlgoCredit ::
  "nat \<Rightarrow> nat \<Rightarrow> StakedInfo \<times> payout \<Rightarrow> error + StakedInfo \<times> payout" where
  "partialAlgoCredit totalStaked timePercentage cp =
     (let cmpStaker = fst cp; p = snd cp in
      if 0 < algoRewardAvail p then
        bindE (wideRatio [balance cmpStaker, algoRewardAvail p, timePercentage] [totalStaked, 1000])
          (\<lambda>stakerReward.
        bindE (sub64 (algoRewardAvail p) stakerReward) (\<lambda>avail.
        bindE (add64 (balance cmpStaker) stakerReward) (\<lambda>bal.
        bindE (add64 (totalRewarded cmpStaker) stakerReward) (\<lambda>rewarded.
        bindE (add64 (increasedStake p) stakerReward) (\<lambda>inc.
          Inr (cmpStaker\<lparr> balance := bal, totalRewarded := rewarded \<rparr>,
               p\<lparr> algoRewardAvail := avail, increasedStake := inc \<rparr>))))))
      else Inr cp)"

definition passA_slot ::
  "nat \<Rightarrow> nat \<Rightarrow> nat \<Rightarrow> StakedInfo \<Rightarrow> payout \<Rightarrow> error + StakedInfo \<times> payout" where
  "passA_slot curTime epochInSecs totalStaked cmpStaker p =
     (if account cmpStaker \<noteq> zeroAddress then
        (if curTime < entryTime cmpStaker then
           bindE (add64 (partialStakersTotalStake p) (balance cmpStaker)) (\<lambda>ps.
             Inr (cmpStaker, p\<lparr> partialStakersTotalStake := ps \<rparr>))
         else
           let timeInPool = curTime - entryTime cmpStaker in
           if timeInPool < epochInSecs then
             bindE (add64 (partialStakersTotalStake p) (balance cmpStaker)) (\<lambda>ps.
             bindE (mul64 timeInPool 1000) (\<lambda>scaled.
               let timePercentage = scaled div epochInSecs in
               bindE (partialTokenCredit totalStaked timePercentage
                        (cmpStaker, p\<lparr> partialStakersTotalStake := ps \<rparr>))
                     (partialAlgoCredit totalStaked timePercentage)))
           else Inr (cmpStaker, p))
      else Inr (cmpStaker, p))"

fun passA ::
  "nat \<Rightarrow> nat \<Rightarrow> nat \<Rightarrow> StakedInfo list \<Rightarrow> payout \<Rightarrow> error + StakedInfo list \<times> payout" where
  "passA curTime epochInSecs totalStaked [] p = Inr ([], p)"
| "passA curTime epochInSecs totalStaked (cmpStaker # rest) p =
     bindE (passA_slot curTime epochInSecs totalStaked cmpStaker p) (\<lambda>cp.
     bindE (passA curTime epochInSecs totalStaked rest (snd cp)) (\<lambda>rp.
       Inr (fst cp # fst rp, snd rp)))"

text \<open>Pass B on one slot: the credits of a staker who was in the pool for the whole epoch.\<close>

definition fullTokenCredit ::
  "nat \<Rightarrow> StakedInfo \<times> payout \<Rightarrow> error + StakedInfo \<times> payout" where
  "fullTokenCredit newPoolTotalStake cp =
     (let cmpStaker = fst cp; p = snd cp in
      if 0 < tokenRewardAvail p then
        bindE (wideRatio [balance cmpStaker, tokenRewardAvail p] [newPoolTotalStake])
          (\<lambda>stakerTokenReward.
        bindE (add64 (rewardTokenBalance cmpStaker) stakerTokenReward) (\<lambda>tokBal.
        bindE (add64 (tokenRewardPaidOut p) stakerTokenReward) (\<lambda>paid.
          Inr (cmpStaker\<lparr> rewardTokenBalance := tokBal \<rparr>, p\<lparr> tokenRewardPaidOut := paid \<rparr>))))
      else Inr cp)"

definition fullAlgoCredit ::
  "nat \<Rightarrow> StakedInfo \<times> payout \<Rightarrow> error + StakedInfo \<times> payout" where
  "fullAlgoCredit newPoolTotalStake cp =
     (let cmpStaker = fst cp; p = snd cp in
      if 0 < algoRewardAvail p then
        bindE (wideRatio [balance cmpStaker, algoRewardAvail p] [newPoolTotalStake])
          (\<lambda>stakerReward.
        bindE (add64 (balance cmpStaker) stakerReward) (\<lambda>bal.
        bindE (add64 (totalRewarded cmpStaker) stakerReward) (\<lambda>rewarded.
        bindE (add64 (increasedStake p) stakerReward) (\<lambda>inc.
          Inr (cmpStaker\<lparr> balance := bal, totalRewarded := rewarded \<rparr>,
               p\<lparr> increasedStake := inc \<rparr>)))))
      else Inr cp)"

definition passB_slot ::
  "nat \<Rightarrow> nat \<Rightarrow> nat \<Rightarrow> StakedInfo \<Rightarrow> payout \<Rightarrow> error + StakedInfo \<times> payout" where
  "passB_slot curTime epochInSecs newPoolTotalStake cmpStaker p =
     (if account cmpStaker \<noteq> zeroAddress \<and> entryTime cmpStaker < curTime then
        (if epochInSecs \<le> curTime - entryTime cmpStaker then
           bindE (fullTokenCredit newPoolTotalStake (cmpStaker, p))
                 (fullAlgoCredit newPoolTotalStake)
         else Inr (cmpStaker, p))
      else Inr (cmpStaker, p))"

fun passB ::
  "nat \<Rightarrow> nat \<Rightarrow> nat \<Rightarrow> StakedInfo list \<Rightarrow> payout \<Rightarrow> error + StakedInfo list \<times> payout" where
  "passB curTime epochInSecs newPoolTotalStake [] p = Inr ([], p)"
| "passB curTime epochInSecs newPoolTotalStake (cmpStaker # rest) p =
     bindE (passB_slot curTime epochInSecs newPoolTotalStake cmpStaker p) (\<lambda>cp.
     bindE (passB curTime epochInSecs newPoolTotalStake rest (snd cp)) (\<lambda>rp.
       Inr (fst cp # fst rp, snd rp)))"

text \<open>The two passes together, from the reward left after saturation and commission.\<close>

definition distribute ::
  "nat \<Rightarrow> nat \<Rightarrow> nat \<Rightarrow> StakedInfo list \<Rightarrow> nat \<Rightarrow> nat \<Rightarrow> error + StakedInfo list \<times> payout" where
  "distribute curTime epochInSecs totalStaked xs algoReward tokenReward =
     bindE (passA curTime epochInSecs totalStaked xs
              \<lparr> algoRewardAvail = algoReward, tokenRewardAvail = tokenReward,
                tokenRewardPaidOut = 0, increasedStake = 0, partialStakersTotalStake = 0 \<rparr>)
       (\<lambda>ap.
     bindE (sub64 totalStaked (partialStakersTotalStake (snd ap))) (\<lambda>newPoolTotalStake.
       if 0 < newPoolTotalStake
       then passB curTime epochInSecs newPoolTotalStake (fst ap) (snd ap)
       else Inr ap))"

record epoch_out =
  outPool :: pool
  outTxns :: "itxn list"
  outIncreasedStake :: nat
  outTokenRewardPaidOut :: nat
  outValidatorCommissionPaidOut :: nat
  outExcessToFeeSink :: nat

text \<open>The surplus of the pool account: balance minus tracked stake minus minimum balance.\<close>

definition epochSurplus :: "env \<Rightarrow> pool \<Rightarrow> error + nat" where
  "epochSurplus e s =
     bindE (sub64 (accountBalance e (thisAppAddress e)) (totalAlgoStaked s)) (\<lambda>x.
       sub64 x (accountMinBalance e (thisAppAddress e)))"

definition epochBalanceUpdate :: "env \<Rightarrow> pool \<Rightarrow> error + epoch_out" where
  "epochBalanceUpdate e s =
     (let validatorConfig = getValidatorConfig e (validatorId s);
          curTime = latestTimestamp e
      in
      bindE (epochInSecsOf validatorConfig) (\<lambda>epochInSecs.
      bindE (epochGate e s epochInSecs) (\<lambda>_.
      bindE (add64 (epochNumber s) 1) (\<lambda>newEpoch.
        let validatorState = getValidatorState e (validatorId s) in
        bindE (epochSurplus e s) (\<lambda>surplus.
        bindE (algoSaturationLevel e) (\<lambda>algoSaturationAmt.
        bindE (epochTokenRewardAvail e s) (\<lambda>tokenReward.
          if tokenReward = 0 \<and> \<not> 1000000 < surplus
          then Inl (AssertFailed ''Reward needs to be at least 1 ALGO'')
          else
            bindE (epochCommission e validatorConfig validatorState algoSaturationAmt surplus)
              (\<lambda>(algoReward, validatorCommissionPaidOut, excessToFeeSink, payTxns).
            case stakers s of
              None \<Rightarrow> Inl BoxMissing
            | Some xs \<Rightarrow>
                bindE (distribute curTime epochInSecs (totalAlgoStaked s) xs algoReward tokenReward)
                  (\<lambda>(xs', p).
                bindE (add64 (totalAlgoStaked s) (increasedStake p)) (\<lambda>newTotal.
                  Inr \<lparr> outPool = s\<lparr> lastPayout := Some curTime,
                                      epochNumber := newEpoch,
                                      stakers := Some xs',
                                      totalAlgoStaked := newTotal \<rparr>,
                        outTxns = ratioTxns e s @ payTxns @
                          [CallStakeUpdatedViaRewards (thisPoolKey e s) (increasedStake p)
                             (tokenRewardPaidOut p) validatorCommissionPaidOut excessToFeeSink],
                        outIncreasedStake = increasedStake p,
                        outTokenRewardPaidOut = tokenRewardPaidOut p,
                        outValidatorCommissionPaidOut = validatorCommissionPaidOut,
                        outExcessToFeeSink = excessToFeeSink \<rparr>))))))))))"

section \<open>Owner-or-manager operations\<close>

text \<open>
  \<^verbatim>\<open>isOwnerOrManagerCaller\<close> asks the registry for the owner and the manager of the pool's
  validator at every call; the pool stores neither.
\<close>

definition isOwnerOrManagerCaller :: "env \<Rightarrow> pool \<Rightarrow> bool" where
  "isOwnerOrManagerCaller e s =
     (let OwnerAndManager = getValidatorOwnerAndManager e (validatorId s)
      in txnSender e = fst OwnerAndManager \<or> txnSender e = snd OwnerAndManager)"

definition updateAlgodVer :: "env \<Rightarrow> string \<Rightarrow> pool \<Rightarrow> error + pool \<times> itxn list" where
  "updateAlgodVer e ver s =
     (if \<not> isOwnerOrManagerCaller e s then Inl (AssertFailed ''isOwnerOrManagerCaller'')
      else Inr (s\<lparr> algodVer := ver \<rparr>, []))"

definition goOnline ::
  "env \<Rightarrow> string \<Rightarrow> string \<Rightarrow> string \<Rightarrow> nat \<Rightarrow> nat \<Rightarrow> nat \<Rightarrow> pool \<Rightarrow> error + pool \<times> itxn list" where
  "goOnline e votePK selectionPK stateProofPK voteFirst voteLast voteKeyDilution s =
     (if \<not> isOwnerOrManagerCaller e s then Inl (AssertFailed ''isOwnerOrManagerCaller'')
      else Inr (s, [OnlineKeyRegistration votePK selectionPK stateProofPK
                      voteFirst voteLast voteKeyDilution]))"

definition goOffline :: "env \<Rightarrow> pool \<Rightarrow> error + pool \<times> itxn list" where
  "goOffline e s =
     (if txnSender e \<noteq> appAddress e (creatingValidatorContractAppId s)
         \<and> \<not> isOwnerOrManagerCaller e s
      then Inl (AssertFailed ''isOwnerOrManagerCaller'')
      else Inr (s, [OfflineKeyRegistration]))"

definition linkToNFD :: "env \<Rightarrow> nat \<Rightarrow> string \<Rightarrow> pool \<Rightarrow> error + pool \<times> itxn list" where
  "linkToNFD e nfdAppId nfdName s =
     (if \<not> isOwnerOrManagerCaller e s then Inl (AssertFailed ''isOwnerOrManagerCaller'')
      else Inr (s, [CallVerifyNfdAddr (nfdRegistryAppId e) nfdName nfdAppId (thisAppAddress e)]))"

section \<open>Calls, runs and ledger predicates\<close>

text \<open>
  A call that aborts leaves the pool as it was; \<open>stateAfter\<close> is the state of the ledger
  after a call, and \<open>runCalls\<close> the state after a sequence of calls, each with its own
  transaction environment.
\<close>

datatype call =
    AddStake PayTxn address
  | RemoveStake nat
  | ClaimTokens
  | EpochBalanceUpdate

definition callResult :: "env \<Rightarrow> call \<Rightarrow> pool \<Rightarrow> error + pool" where
  "callResult e c s =
     (case c of
        AddStake stakedAmountPayment staker \<Rightarrow>
          bindE (addStake e stakedAmountPayment staker s) (\<lambda>r. Inr (fst (fst r)))
      | RemoveStake amountToUnstake \<Rightarrow> bindE (removeStake e amountToUnstake s) (\<lambda>r. Inr (fst r))
      | ClaimTokens \<Rightarrow> bindE (claimTokens e s) (\<lambda>r. Inr (fst r))
      | EpochBalanceUpdate \<Rightarrow> bindE (epochBalanceUpdate e s) (\<lambda>r. Inr (outPool r)))"

definition stateAfter :: "pool \<Rightarrow> env \<times> call \<Rightarrow> pool" where
  "stateAfter s ec = (case callResult (fst ec) (snd ec) s of Inl err \<Rightarrow> s | Inr s' \<Rightarrow> s')"

definition runCalls :: "pool \<Rightarrow> (env \<times> call) list \<Rightarrow> pool" where
  "runCalls s calls = foldl stateAfter s calls"

definition occupied :: "StakedInfo \<Rightarrow> bool" where
  "occupied x = (account x \<noteq> zeroAddress)"

definition occupiedStake :: "StakedInfo list \<Rightarrow> nat" where
  "occupiedStake xs = sum_list (map balance (filter occupied xs))"

definition ledger_ok :: "pool \<Rightarrow> bool" where
  "ledger_ok s =
     (case stakers s of
        None \<Rightarrow> totalAlgoStaked s = 0 \<and> numStakers s = 0
      | Some xs \<Rightarrow> totalAlgoStaked s = occupiedStake xs
                   \<and> numStakers s = length (filter occupied xs))"

definition distinctOccupied :: "pool \<Rightarrow> bool" where
  "distinctOccupied s =
     (case stakers s of
        None \<Rightarrow> True
      | Some xs \<Rightarrow> distinct (map account (filter occupied xs)))"

section \<open>Example pools and environments\<close>

definition plainConfig :: ValidatorConfig where
  "plainConfig = \<lparr> owner = 10, manager = 11, rewardTokenId = 0, rewardPerPayout = 0,
                    payoutEveryXMins = 1, percentToValidator = 100000,
                    validatorCommissionAddress = 12 \<rparr>"

definition tokenConfig :: ValidatorConfig where
  "tokenConfig = \<lparr> owner = 10, manager = 11, rewardTokenId = 5, rewardPerPayout = 1000,
                    payoutEveryXMins = 1, percentToValidator = 100000,
                    validatorCommissionAddress = 12 \<rparr>"

definition exampleState :: "nat \<Rightarrow> ValidatorState" where
  "exampleState staked = \<lparr> numPools = 1, totalStakers = 2, vsTotalAlgoStaked = staked,
                            rewardTokenHeldBack = 0 \<rparr>"

text \<open>
  An environment for pool application 77 (account 1077) of validator 1, created by the
  registry application 7 (account 1007); owner 10, manager 11.  The chain accepts every
  inner transaction.
\<close>

definition exampleEnv :: "ValidatorConfig \<Rightarrow> nat \<Rightarrow> address \<Rightarrow> nat \<Rightarrow> nat \<Rightarrow> env" where
  "exampleEnv cfg staked sender now bal =
     \<lparr> txnSender = sender, latestTimestamp = now, thisAppId = 77, thisAppAddress = 1077,
       accountBalance = (\<lambda>a. if a = 1077 then bal else 5000000),
       accountMinBalance = (\<lambda>a. 100000),
       assetBalance = (\<lambda>a t. 5000),
       appAddress = (\<lambda>i. 1000 + i),
       getValidatorConfig = (\<lambda>v. cfg),
       getValidatorState = (\<lambda>v. exampleState staked),
       getPoolAppId = (\<lambda>v p. 77),
       getValidatorOwnerAndManager = (\<lambda>v. (10, 11)),
       setTokenPayoutRatio = (\<lambda>v. [1000000]),
       innerTxnAccepted = (\<lambda>t. True),
       feeSinkAddr = 99,
       nfdRegistryAppId = 5,
       MAX_STAKERS_PER_POOL = 2,
       MIN_ALGO_STAKE_PER_POOL = 1000000,
       MAX_VALIDATOR_SOFT_PCT_OF_ONLINE_1DECIMAL = 100,
       ALGORAND_ACCOUNT_MIN_BALANCE = 100000,
       ASSET_HOLDING_FEE = 100000 \<rparr>"

definition examplePool :: "StakedInfo list \<Rightarrow> nat \<Rightarrow> nat \<Rightarrow> pool" where
  "examplePool xs n t =
     \<lparr> creatingValidatorContractAppId = 7, validatorId = 1, poolId = 1,
       numStakers = n, totalAlgoStaked = t, minEntryStake = 1000000, lastPayout = Some 1000,
       epochNumber = 0, algodVer = [], stakers = Some xs \<rparr>"

definition stakerSlot :: "address \<Rightarrow> nat \<Rightarrow> nat \<Rightarrow> StakedInfo" where
  "stakerSlot a b t = \<lparr> account = a, balance = b, totalRewarded = 0,
                         rewardTokenBalance = 0, entryTime = t \<rparr>"

text \<open>
  A run on a pool with two slots: two stakers enter, the first leaves, the second adds
  stake, an epoch passes and is paid out, and the second staker claims tokens.
\<close>

definition exampleCalls :: "(env \<times> call) list" where
  "exampleCalls =
     [(exampleEnv plainConfig 0 1007 1000 0,
         AddStake \<lparr> paySender = 1007, payReceiver = 1077, payAmount = 100000000 \<rparr> 21),
      (exampleEnv plainConfig 0 1007 1000 0,
         AddStake \<lparr> paySender = 1007, payReceiver = 1077, payAmount = 100000000 \<rparr> 22),
      (exampleEnv plainConfig 0 21 1010 0, RemoveStake 0),
      (exampleEnv plainConfig 0 1007 1020 0,
         AddStake \<lparr> paySender = 1007, payReceiver = 1077, payAmount = 5000000 \<rparr> 22),
      (exampleEnv plainConfig 105000000 3 3000 125100000, EpochBalanceUpdate),
      (exampleEnv plainConfig 0 22 3010 0, ClaimTokens)]"

section \<open>The reward distribution, described slot by slot\<close>

text \<open>
  A credit adds algo to the balance and to the lifetime counter of a slot, and tokens to
  its token balance.
\<close>

definition creditStaker :: "StakedInfo \<Rightarrow> nat \<Rightarrow> nat \<Rightarrow> StakedInfo" where
  "creditStaker c algo tok =
     c\<lparr> balance := balance c + algo,
        totalRewarded := totalRewarded c + algo,
        rewardTokenBalance := rewardTokenBalance c + tok \<rparr>"

definition applyCredits :: "StakedInfo list \<Rightarrow> nat list \<Rightarrow> nat list \<Rightarrow> StakedInfo list" where
  "applyCredits xs algos toks = map2 (\<lambda>c at. creditStaker c (fst at) (snd at)) xs (zip algos toks)"

text \<open>
  The description of the two passes in the words of the specification.  A slot is
  \<^emph>\<open>partial\<close> when it is occupied and its time in the pool is shorter than the epoch; it
  is \<^emph>\<open>future\<close> when its entry time lies ahead; it was in the pool for the \<^emph>\<open>whole epoch\<close>
  otherwise.
\<close>

definition spec_future :: "nat \<Rightarrow> StakedInfo \<Rightarrow> bool" where
  "spec_future now c = (occupied c \<and> now < entryTime c)"

definition spec_partial :: "nat \<Rightarrow> nat \<Rightarrow> StakedInfo \<Rightarrow> bool" where
  "spec_partial now epochSecs c =
     (occupied c \<and> entryTime c \<le> now \<and> now - entryTime c < epochSecs)"

definition spec_wholeEpoch :: "nat \<Rightarrow> nat \<Rightarrow> StakedInfo \<Rightarrow> bool" where
  "spec_wholeEpoch now epochSecs c =
     (occupied c \<and> entryTime c \<le> now \<and> epochSecs \<le> now - entryTime c)"

definition spec_timePercentage :: "nat \<Rightarrow> nat \<Rightarrow> StakedInfo \<Rightarrow> nat" where
  "spec_timePercentage now epochSecs c = (now - entryTime c) * 1000 div epochSecs"

definition spec_partialCredit :: "nat \<Rightarrow> nat \<Rightarrow> nat \<Rightarrow> nat \<Rightarrow> StakedInfo \<Rightarrow> nat" where
  "spec_partialCredit now epochSecs totalStaked reward c =
     (if spec_partial now epochSecs c
      then balance c * reward * spec_timePercentage now epochSecs c div (totalStaked * 1000)
      else 0)"

text \<open>Pass A: each credit is taken from the reward before the next slot is looked at.\<close>

fun spec_passA :: "nat \<Rightarrow> nat \<Rightarrow> nat \<Rightarrow> nat \<Rightarrow> StakedInfo list \<Rightarrow> nat list" where
  "spec_passA now epochSecs totalStaked reward [] = []"
| "spec_passA now epochSecs totalStaked reward (c # cs) =
     spec_partialCredit now epochSecs totalStaked reward c
     # spec_passA now epochSecs totalStaked
         (reward - spec_partialCredit now epochSecs totalStaked reward c) cs"

definition spec_partialStakersTotalStake :: "nat \<Rightarrow> nat \<Rightarrow> StakedInfo list \<Rightarrow> nat" where
  "spec_partialStakersTotalStake now epochSecs xs =
     sum_list (map balance
       (filter (\<lambda>c. spec_partial now epochSecs c \<or> spec_future now c) xs))"

definition spec_fullCredit :: "nat \<Rightarrow> nat \<Rightarrow> nat \<Rightarrow> nat \<Rightarrow> StakedInfo \<Rightarrow> nat" where
  "spec_fullCredit now epochSecs reducedTotal remainingReward c =
     (if spec_wholeEpoch now epochSecs c then balance c * remainingReward div reducedTotal
      else 0)"

text \<open>
  The credit of every slot after both passes; pass B distributes nothing when the reduced
  total is zero.
\<close>

definition spec_credits :: "nat \<Rightarrow> nat \<Rightarrow> nat \<Rightarrow> nat \<Rightarrow> StakedInfo list \<Rightarrow> nat list" where
  "spec_credits now epochSecs totalStaked reward xs =
     (let partialCredits = spec_passA now epochSecs totalStaked reward xs;
          reducedTotal = totalStaked - spec_partialStakersTotalStake now epochSecs xs;
          remainingReward = reward - sum_list partialCredits
      in map2 (\<lambda>c a. a + (if reducedTotal = 0 then 0
                            else spec_fullCredit now epochSecs reducedTotal remainingReward c))
           xs partialCredits)"

text \<open>
  The test that the second loop of the code applies to a slot, and the credits of both
  loops with that test.
\<close>

definition passB_pays :: "nat \<Rightarrow> nat \<Rightarrow> StakedInfo \<Rightarrow> bool" where
  "passB_pays curTime epochInSecs c =
     (account c \<noteq> zeroAddress \<and> entryTime c < curTime \<and> epochInSecs \<le> curTime - entryTime c)"

definition passB_credit :: "nat \<Rightarrow> nat \<Rightarrow> nat \<Rightarrow> nat \<Rightarrow> StakedInfo \<Rightarrow> nat" where
  "passB_credit curTime epochInSecs newPoolTotalStake reward c =
     (if passB_pays curTime epochInSecs c then balance c * reward div newPoolTotalStake else 0)"

definition code_credits :: "nat \<Rightarrow> nat \<Rightarrow> nat \<Rightarrow> nat \<Rightarrow> StakedInfo list \<Rightarrow> nat list" where
  "code_credits curTime epochInSecs totalStaked reward xs =
     (let partialCredits = spec_passA curTime epochInSecs totalStaked reward xs;
          newPoolTotalStake = totalStaked - spec_partialStakersTotalStake curTime epochInSecs xs;
          remainingReward = reward - sum_list partialCredits
      in map2 (\<lambda>c a. a + (if newPoolTotalStake = 0 then 0
                            else passB_credit curTime epochInSecs newPoolTotalStake
                                   remainingReward c))
           xs partialCredits)"


text \<open>The run-time failures of checked arithmetic.\<close>

definition arithmeticError :: "error \<Rightarrow> bool" where
  "arithmeticError err = (err = Overflow \<or> err = Underflow \<or> err = WideRatioFailed)"

section \<open>Basic facts\<close>

lemmas arith_defs = u64_def u128_def bindE_def add64_def sub64_def mul64_def wideRatio_def

lemmas epoch_defs = epochBalanceUpdate_def epochInSecsOf_def epochGate_def epochSurplus_def
  algoSaturationLevel_def getCurrentOnlineStake_def epochTokenRewardAvail_def
  epochCommission_def distribute_def passA_slot_def passB_slot_def partialTokenCredit_def
  partialAlgoCredit_def fullTokenCredit_def fullAlgoCredit_def ratioTxns_def
  poolOneAppIDOf_def poolOneAddressOf_def thisPoolKey_def zeroAddress_def

lemmas example_defs = plainConfig_def tokenConfig_def exampleState_def exampleEnv_def
  examplePool_def stakerSlot_def

lemmas ledger_defs = addStake_def removeStake_def submit_def claimTokens_def getEntryTime_def
  ALGORAND_STAKING_BLOCK_DELAY_def AVG_BLOCK_TIME_SECS_def emptySlot_def
  callResult_def stateAfter_def runCalls_def createApplication_def initStorage_def
  costForBoxStorage_def

lemmas spec_defs = spec_credits_def spec_partialCredit_def spec_partial_def spec_future_def
  spec_wholeEpoch_def spec_timePercentage_def spec_partialStakersTotalStake_def
  spec_fullCredit_def occupied_def zeroAddress_def applyCredits_def creditStaker_def

lemma replicate_two: "replicate 2 x = [x, x]"
  by (simp add: numeral_2_eq_2)

lemma bindE_Inl [simp]: "bindE (Inl err) f = Inl err"
  by (simp add: bindE_def)

lemma bindE_Inr [simp]: "bindE (Inr x) f = f x"
  by (simp add: bindE_def)

lemma bindE_eq_Inr: "bindE m f = Inr y \<longleftrightarrow> (\<exists>x. m = Inr x \<and> f x = Inr y)"
  by (cases m) simp_all

lemma bindE_eq_Inl:
  "bindE m f = Inl err \<longleftrightarrow> m = Inl err \<or> (\<exists>x. m = Inr x \<and> f x = Inl err)"
  by (cases m) simp_all

lemma add64_Inr: "add64 a b = Inr c \<longleftrightarrow> c = a + b \<and> a + b < u64"
  by (auto simp: add64_def)

lemma sub64_Inr: "sub64 a b = Inr c \<longleftrightarrow> c = a - b \<and> b \<le> a"
  by (auto simp: sub64_def)

lemma mul64_Inr: "mul64 a b = Inr c \<longleftrightarrow> c = a * b \<and> a * b < u64"
  by (auto simp: mul64_def)

lemma wideRatio_Inr:
  "wideRatio ns ds = Inr c \<longleftrightarrow>
     c = prod_list ns div prod_list ds \<and> prod_list ns < u128 \<and> prod_list ds < u128
     \<and> prod_list ds \<noteq> 0 \<and> prod_list ns div prod_list ds < u64"
  by (auto simp: wideRatio_def Let_def)

section \<open>Authorization of the owner-or-manager operations\<close>

text \<open>
  C8 (as amended).  \<^verbatim>\<open>goOnline\<close>, \<^verbatim>\<open>updateAlgodVer\<close> and \<^verbatim>\<open>linkToNFD\<close> fail exactly when the
  sender is neither the owner nor the manager that the registry reports, at the time of
  the call, for the pool's validator; nothing stored in the pool takes part in the
  decision.  \<^verbatim>\<open>goOffline\<close> fails exactly when, in addition, the sender is not the account
  of the registry contract that created the pool: the registry itself may take a pool
  offline.
\<close>

theorem owner_or_manager_gate:
  "(isl (goOnline e votePK selectionPK stateProofPK voteFirst voteLast voteKeyDilution s)
      \<longleftrightarrow> \<not> (txnSender e = fst (getValidatorOwnerAndManager e (validatorId s))
             \<or> txnSender e = snd (getValidatorOwnerAndManager e (validatorId s))))
   \<and> (isl (updateAlgodVer e ver s)
      \<longleftrightarrow> \<not> (txnSender e = fst (getValidatorOwnerAndManager e (validatorId s))
             \<or> txnSender e = snd (getValidatorOwnerAndManager e (validatorId s))))
   \<and> (isl (linkToNFD e nfdAppId nfdName s)
      \<longleftrightarrow> \<not> (txnSender e = fst (getValidatorOwnerAndManager e (validatorId s))
             \<or> txnSender e = snd (getValidatorOwnerAndManager e (validatorId s))))
   \<and> (isl (goOffline e s)
      \<longleftrightarrow> txnSender e \<noteq> appAddress e (creatingValidatorContractAppId s)
          \<and> \<not> (txnSender e = fst (getValidatorOwnerAndManager e (validatorId s))
             \<or> txnSender e = snd (getValidatorOwnerAndManager e (validatorId s))))"
  by (simp add: goOnline_def updateAlgodVer_def linkToNFD_def goOffline_def
      isOwnerOrManagerCaller_def Let_def)

text \<open>A stranger (account 3) is turned away by all four operations.\<close>

theorem owner_or_manager_gate_witness:
  "isl (goOnline (exampleEnv plainConfig 0 3 1000 0) [] [] [] 1 2 3 (examplePool [] 0 0))
   \<and> isl (updateAlgodVer (exampleEnv plainConfig 0 3 1000 0) ''3.22.0'' (examplePool [] 0 0))
   \<and> isl (linkToNFD (exampleEnv plainConfig 0 3 1000 0) 8 ''pool.algo'' (examplePool [] 0 0))
   \<and> isl (goOffline (exampleEnv plainConfig 0 3 1000 0) (examplePool [] 0 0))"
  using owner_or_manager_gate [of "exampleEnv plainConfig 0 3 1000 0" "[]" "[]" "[]" 1 2 3
      "examplePool [] 0 0" "''3.22.0''" 8 "''pool.algo''"]
  by (simp add: example_defs)

text \<open>
  The registry account (1007) is neither owner (10) nor manager (11), and its
  \<^verbatim>\<open>goOffline\<close> call goes through.
\<close>

theorem goOffline_by_registry_counterexample:
  "txnSender (exampleEnv plainConfig 0 1007 1000 0)
     \<noteq> fst (getValidatorOwnerAndManager (exampleEnv plainConfig 0 1007 1000 0)
              (validatorId (examplePool [] 0 0)))
   \<and> txnSender (exampleEnv plainConfig 0 1007 1000 0)
     \<noteq> snd (getValidatorOwnerAndManager (exampleEnv plainConfig 0 1007 1000 0)
              (validatorId (examplePool [] 0 0)))
   \<and> goOffline (exampleEnv plainConfig 0 1007 1000 0) (examplePool [] 0 0)
     = Inr (examplePool [] 0 0, [OfflineKeyRegistration])"
  by (simp add: goOffline_def isOwnerOrManagerCaller_def example_defs)

section \<open>Failures and success of the epoch update\<close>

lemma add64_Inl: "add64 a b = Inl err \<Longrightarrow> arithmeticError err"
  by (auto simp: add64_def arithmeticError_def split: if_splits)

lemma sub64_Inl: "sub64 a b = Inl err \<Longrightarrow> arithmeticError err"
  by (auto simp: sub64_def arithmeticError_def split: if_splits)

lemma mul64_Inl: "mul64 a b = Inl err \<Longrightarrow> arithmeticError err"
  by (auto simp: mul64_def arithmeticError_def split: if_splits)

lemma wideRatio_Inl: "wideRatio ns ds = Inl err \<Longrightarrow> arithmeticError err"
  by (auto simp: wideRatio_def Let_def arithmeticError_def split: if_splits)

lemmas arith_Inl = add64_Inl sub64_Inl mul64_Inl wideRatio_Inl

lemma epochCommission_Inl:
  "epochCommission e cfg vs sat S = Inl err \<Longrightarrow> arithmeticError err"
  unfolding epochCommission_def Let_def
  by (auto simp: bindE_eq_Inl split: if_splits dest: arith_Inl)

lemma partialTokenCredit_Inl: "partialTokenCredit t tp cp = Inl err \<Longrightarrow> arithmeticError err"
  unfolding partialTokenCredit_def Let_def
  by (auto simp: bindE_eq_Inl split: if_splits dest: arith_Inl)

lemma partialAlgoCredit_Inl: "partialAlgoCredit t tp cp = Inl err \<Longrightarrow> arithmeticError err"
  unfolding partialAlgoCredit_def Let_def
  by (auto simp: bindE_eq_Inl split: if_splits dest: arith_Inl)

lemma fullTokenCredit_Inl: "fullTokenCredit n cp = Inl err \<Longrightarrow> arithmeticError err"
  unfolding fullTokenCredit_def Let_def
  by (auto simp: bindE_eq_Inl split: if_splits dest: arith_Inl)

lemma fullAlgoCredit_Inl: "fullAlgoCredit n cp = Inl err \<Longrightarrow> arithmeticError err"
  unfolding fullAlgoCredit_def Let_def
  by (auto simp: bindE_eq_Inl split: if_splits dest: arith_Inl)

lemma passA_slot_Inl: "passA_slot now ep t c p = Inl err \<Longrightarrow> arithmeticError err"
  unfolding passA_slot_def Let_def
  by (auto simp: bindE_eq_Inl split: if_splits
      dest: arith_Inl partialTokenCredit_Inl partialAlgoCredit_Inl)

lemma passB_slot_Inl: "passB_slot now ep n c p = Inl err \<Longrightarrow> arithmeticError err"
  unfolding passB_slot_def Let_def
  by (auto simp: bindE_eq_Inl split: if_splits dest: fullTokenCredit_Inl fullAlgoCredit_Inl)

lemma passA_Inl: "passA now ep t xs p = Inl err \<Longrightarrow> arithmeticError err"
  by (induction xs arbitrary: p) (auto simp: bindE_eq_Inl dest: passA_slot_Inl)

lemma passB_Inl: "passB now ep n xs p = Inl err \<Longrightarrow> arithmeticError err"
  by (induction xs arbitrary: p) (auto simp: bindE_eq_Inl dest: passB_slot_Inl)

lemma distribute_Inl: "distribute now ep t xs R T = Inl err \<Longrightarrow> arithmeticError err"
  unfolding distribute_def
  by (auto simp: bindE_eq_Inl split: if_splits dest: passA_Inl passB_Inl sub64_Inl)

lemma epochGate_Inl:
  "epochGate e s ep = Inl err \<Longrightarrow>
     arithmeticError err \<or> err = AssertFailed ''Can't payout earlier than last payout + epoch time''"
  unfolding epochGate_def
  by (auto simp: bindE_eq_Inl split: option.splits if_splits dest: sub64_Inl)

lemma epochSurplus_Inl: "epochSurplus e s = Inl err \<Longrightarrow> arithmeticError err"
  unfolding epochSurplus_def by (auto simp: bindE_eq_Inl dest: sub64_Inl)

lemma epochTokenRewardAvail_Inl:
  "epochTokenRewardAvail e s = Inl err \<Longrightarrow> arithmeticError err \<or> err = IndexOutOfRange"
  unfolding epochTokenRewardAvail_def Let_def
  by (auto simp: bindE_eq_Inl split: if_splits dest: arith_Inl)

lemma epochBalanceUpdate_Inr:
  assumes "epochBalanceUpdate e s = Inr r"
  obtains ep S sat tok R comm exc ptx xs xs' p where
    "epochInSecsOf (getValidatorConfig e (validatorId s)) = Inr ep"
    "epochGate e s ep = Inr ()"
    "epochNumber s + 1 < u64"
    "epochSurplus e s = Inr S"
    "algoSaturationLevel e = Inr sat"
    "epochTokenRewardAvail e s = Inr tok"
    "tok = 0 \<longrightarrow> 1000000 < S"
    "epochCommission e (getValidatorConfig e (validatorId s)) (getValidatorState e (validatorId s)) sat S
       = Inr (R, comm, exc, ptx)"
    "stakers s = Some xs"
    "distribute (latestTimestamp e) ep (totalAlgoStaked s) xs R tok = Inr (xs', p)"
    "totalAlgoStaked s + increasedStake p < u64"
    "outPool r = s\<lparr> lastPayout := Some (latestTimestamp e), epochNumber := epochNumber s + 1,
                      stakers := Some xs', totalAlgoStaked := totalAlgoStaked s + increasedStake p \<rparr>"
    "outIncreasedStake r = increasedStake p"
    "outTokenRewardPaidOut r = tokenRewardPaidOut p"
    "outValidatorCommissionPaidOut r = comm"
    "outExcessToFeeSink r = exc"
    "outTxns r = ratioTxns e s @ ptx @
       [CallStakeUpdatedViaRewards (thisPoolKey e s) (increasedStake p) (tokenRewardPaidOut p)
          comm exc]"
  using assms
  unfolding epochBalanceUpdate_def Let_def
  by (auto simp: bindE_eq_Inr add64_Inr split: if_splits option.splits prod.splits)

lemma epochGate_early:
  "lastPayout s = Some lp \<Longrightarrow> latestTimestamp e < lp + ep \<Longrightarrow> isl (epochGate e s ep)"
  by (auto simp: epochGate_def sub64_def)

lemma epochBalanceUpdate_early:
  assumes "lastPayout s = Some lp"
    and "latestTimestamp e < lp + payoutEveryXMins (getValidatorConfig e (validatorId s)) * 60"
  shows "isl (epochBalanceUpdate e s)"
proof (cases "epochBalanceUpdate e s")
  case (Inl err)
  then show ?thesis by simp
next
  case (Inr r)
  then obtain ep where ep: "epochInSecsOf (getValidatorConfig e (validatorId s)) = Inr ep"
    and gate: "epochGate e s ep = Inr ()"
    by (rule epochBalanceUpdate_Inr)
  from ep have "ep = payoutEveryXMins (getValidatorConfig e (validatorId s)) * 60"
    by (simp add: epochInSecsOf_def mul64_Inr)
  with assms have "isl (epochGate e s ep)" by (simp add: epochGate_early)
  with gate show ?thesis by simp
qed

lemma floor_error_only_from_floor:
  assumes "epochBalanceUpdate e s = Inl (AssertFailed ''Reward needs to be at least 1 ALGO'')"
  shows "epochTokenRewardAvail e s = Inr 0 \<and> (\<exists>S. epochSurplus e s = Inr S \<and> S \<le> 1000000)"
  using assms
  unfolding epochBalanceUpdate_def Let_def algoSaturationLevel_def epochInSecsOf_def
  by (auto simp: bindE_eq_Inl arithmeticError_def split: if_splits option.splits prod.splits
      dest!: arith_Inl epochGate_Inl epochSurplus_Inl epochTokenRewardAvail_Inl
             epochCommission_Inl distribute_Inl)

lemma floor_enforced:
  assumes "epochTokenRewardAvail e s = Inr 0" "epochSurplus e s = Inr S" "S \<le> 1000000"
  shows "isl (epochBalanceUpdate e s)"
proof (cases "epochBalanceUpdate e s")
  case (Inr r)
  then show ?thesis using assms by (elim epochBalanceUpdate_Inr) simp
qed simp

section \<open>The two passes of the distribution\<close>

lemma partialAlgoCredit_Inr:
  assumes "partialAlgoCredit T tp (c, p) = Inr (c', p')"
  shows "c' = creditStaker c (balance c * algoRewardAvail p * tp div (T * 1000)) 0
       \<and> p' = p\<lparr> algoRewardAvail := algoRewardAvail p - balance c * algoRewardAvail p * tp div (T * 1000),
                 increasedStake := increasedStake p + balance c * algoRewardAvail p * tp div (T * 1000) \<rparr>
       \<and> balance c * algoRewardAvail p * tp div (T * 1000) \<le> algoRewardAvail p"
proof (cases "0 < algoRewardAvail p")
  case True
  with assms show ?thesis
    unfolding partialAlgoCredit_def Let_def creditStaker_def
    by (auto simp: bindE_eq_Inr add64_Inr sub64_Inr wideRatio_Inr mult.assoc)
next
  case False
  with assms show ?thesis
    unfolding partialAlgoCredit_def Let_def creditStaker_def
    by simp
qed

lemma partialTokenCredit_Inr:
  assumes "partialTokenCredit T tp (c, p) = Inr (c', p')"
  shows "c' = creditStaker c 0 (balance c * tokenRewardAvail p * tp div (T * 1000))
       \<and> p' = p\<lparr> tokenRewardAvail := tokenRewardAvail p - balance c * tokenRewardAvail p * tp div (T * 1000),
                 tokenRewardPaidOut := tokenRewardPaidOut p + balance c * tokenRewardAvail p * tp div (T * 1000) \<rparr>
       \<and> balance c * tokenRewardAvail p * tp div (T * 1000) \<le> tokenRewardAvail p"
proof (cases "0 < tokenRewardAvail p")
  case True
  with assms show ?thesis
    unfolding partialTokenCredit_def Let_def creditStaker_def
    by (auto simp: bindE_eq_Inr add64_Inr sub64_Inr wideRatio_Inr mult.assoc)
next
  case False
  with assms show ?thesis
    unfolding partialTokenCredit_def Let_def creditStaker_def
    by simp
qed


lemma creditStaker_zero [simp]: "creditStaker c 0 0 = c"
  by (simp add: creditStaker_def)

lemma creditStaker_fields [simp]:
  "account (creditStaker c a t) = account c"
  "entryTime (creditStaker c a t) = entryTime c"
  "balance (creditStaker c a t) = balance c + a"
  "totalRewarded (creditStaker c a t) = totalRewarded c + a"
  "rewardTokenBalance (creditStaker c a t) = rewardTokenBalance c + t"
  by (simp_all add: creditStaker_def)

lemma creditStaker_twice:
  "creditStaker (creditStaker c a t) a' t' = creditStaker c (a + a') (t + t')"
  by (simp add: creditStaker_def add.assoc)

lemma passA_slot_Inr:
  assumes "passA_slot now ep T c p = Inr (c', p')"
  shows "c' = creditStaker c (spec_partialCredit now ep T (algoRewardAvail p) c)
                (spec_partialCredit now ep T (tokenRewardAvail p) c)
       \<and> p' = p\<lparr> algoRewardAvail := algoRewardAvail p - spec_partialCredit now ep T (algoRewardAvail p) c,
                 tokenRewardAvail := tokenRewardAvail p - spec_partialCredit now ep T (tokenRewardAvail p) c,
                 tokenRewardPaidOut := tokenRewardPaidOut p + spec_partialCredit now ep T (tokenRewardAvail p) c,
                 increasedStake := increasedStake p + spec_partialCredit now ep T (algoRewardAvail p) c,
                 partialStakersTotalStake := partialStakersTotalStake p
                   + (if spec_partial now ep c \<or> spec_future now c then balance c else 0) \<rparr>
       \<and> spec_partialCredit now ep T (algoRewardAvail p) c \<le> algoRewardAvail p
       \<and> spec_partialCredit now ep T (tokenRewardAvail p) c \<le> tokenRewardAvail p"
proof -
  consider (empty) "account c = zeroAddress"
    | (future) "account c \<noteq> zeroAddress" "now < entryTime c"
    | (part) "account c \<noteq> zeroAddress" "entryTime c \<le> now" "now - entryTime c < ep"
    | (whole) "account c \<noteq> zeroAddress" "entryTime c \<le> now" "ep \<le> now - entryTime c"
    by linarith
  then show ?thesis
  proof cases
    case empty
    then have "spec_partialCredit now ep T R c = 0" "\<not> spec_partial now ep c" "\<not> spec_future now c" for R
      by (simp_all add: spec_partialCredit_def spec_partial_def spec_future_def occupied_def)
    moreover from empty assms have "c' = c" "p' = p"
      by (simp_all add: passA_slot_def)
    ultimately show ?thesis by simp
  next
    case future
    then have "spec_partialCredit now ep T R c = 0" "spec_future now c" for R
      by (simp_all add: spec_partialCredit_def spec_partial_def spec_future_def occupied_def)
    moreover from future assms
    have "c' = c" "p' = p\<lparr> partialStakersTotalStake := partialStakersTotalStake p + balance c \<rparr>"
      by (auto simp: passA_slot_def bindE_eq_Inr add64_Inr)
    ultimately show ?thesis by simp
  next
    case whole
    then have "spec_partialCredit now ep T R c = 0" "\<not> spec_partial now ep c" "\<not> spec_future now c" for R
      by (simp_all add: spec_partialCredit_def spec_partial_def spec_future_def occupied_def)
    moreover from whole assms have "c' = c" "p' = p"
      by (simp_all add: passA_slot_def Let_def)
    ultimately show ?thesis by simp
  next
    case part
    define tp where "tp = (now - entryTime c) * 1000 div ep"
    define p0 where "p0 = p\<lparr> partialStakersTotalStake := partialStakersTotalStake p + balance c \<rparr>"
    have sp: "spec_partial now ep c"
      using part by (simp add: spec_partial_def occupied_def)
    have cr: "spec_partialCredit now ep T R c = balance c * R * tp div (T * 1000)" for R
      using sp by (simp add: spec_partialCredit_def spec_timePercentage_def tp_def)
    from part assms obtain c1 p1 where
      tok: "partialTokenCredit T tp (c, p0) = Inr (c1, p1)"
      and alg: "partialAlgoCredit T tp (c1, p1) = Inr (c', p')"
      unfolding passA_slot_def Let_def tp_def p0_def
      by (auto simp: bindE_eq_Inr add64_Inr mul64_Inr)
    note t = partialTokenCredit_Inr [OF tok]
    note a = partialAlgoCredit_Inr [OF alg]
    have f1: "balance c1 = balance c" "algoRewardAvail p1 = algoRewardAvail p"
      using t by (simp_all add: p0_def)
    have "c' = creditStaker c (balance c * algoRewardAvail p * tp div (T * 1000))
                 (balance c * tokenRewardAvail p * tp div (T * 1000))"
      using t a f1 by (simp add: creditStaker_twice p0_def)
    moreover have "p' = p\<lparr> algoRewardAvail := algoRewardAvail p - balance c * algoRewardAvail p * tp div (T * 1000),
                 tokenRewardAvail := tokenRewardAvail p - balance c * tokenRewardAvail p * tp div (T * 1000),
                 tokenRewardPaidOut := tokenRewardPaidOut p + balance c * tokenRewardAvail p * tp div (T * 1000),
                 increasedStake := increasedStake p + balance c * algoRewardAvail p * tp div (T * 1000),
                 partialStakersTotalStake := partialStakersTotalStake p + balance c \<rparr>"
      using t a f1 by (simp add: p0_def)
    moreover have "balance c * algoRewardAvail p * tp div (T * 1000) \<le> algoRewardAvail p"
      "balance c * tokenRewardAvail p * tp div (T * 1000) \<le> tokenRewardAvail p"
      using t a f1 by (simp_all add: p0_def)
    ultimately show ?thesis using sp by (simp add: cr)
  qed
qed


lemma applyCredits_Nil [simp]: "applyCredits [] as ts = []"
  by (simp add: applyCredits_def)

lemma applyCredits_Cons [simp]:
  "applyCredits (c # cs) (a # as) (t # ts) = creditStaker c a t # applyCredits cs as ts"
  by (simp add: applyCredits_def)

lemma length_spec_passA [simp]: "length (spec_passA now ep T R xs) = length xs"
  by (induction xs arbitrary: R) simp_all

lemma spec_partialStakersTotalStake_Cons:
  "spec_partialStakersTotalStake now ep (c # cs) =
     (if spec_partial now ep c \<or> spec_future now c then balance c else 0)
     + spec_partialStakersTotalStake now ep cs"
  by (simp add: spec_partialStakersTotalStake_def)

lemma spec_partialStakersTotalStake_Nil [simp]: "spec_partialStakersTotalStake now ep [] = 0"
  by (simp add: spec_partialStakersTotalStake_def)

lemma passA_Inr:
  "passA now ep T xs p = Inr (xs', p') \<Longrightarrow>
     xs' = applyCredits xs (spec_passA now ep T (algoRewardAvail p) xs)
             (spec_passA now ep T (tokenRewardAvail p) xs)
     \<and> sum_list (spec_passA now ep T (algoRewardAvail p) xs) \<le> algoRewardAvail p
     \<and> sum_list (spec_passA now ep T (tokenRewardAvail p) xs) \<le> tokenRewardAvail p
     \<and> algoRewardAvail p' = algoRewardAvail p - sum_list (spec_passA now ep T (algoRewardAvail p) xs)
     \<and> tokenRewardAvail p' = tokenRewardAvail p - sum_list (spec_passA now ep T (tokenRewardAvail p) xs)
     \<and> tokenRewardPaidOut p' = tokenRewardPaidOut p + sum_list (spec_passA now ep T (tokenRewardAvail p) xs)
     \<and> increasedStake p' = increasedStake p + sum_list (spec_passA now ep T (algoRewardAvail p) xs)
     \<and> partialStakersTotalStake p' = partialStakersTotalStake p + spec_partialStakersTotalStake now ep xs"
proof (induction xs arbitrary: p xs' p')
  case Nil
  then show ?case by simp
next
  case (Cons c cs)
  from Cons.prems obtain c1 p1 cs' where
    slot: "passA_slot now ep T c p = Inr (c1, p1)"
    and rest: "passA now ep T cs p1 = Inr (cs', p')"
    and xs': "xs' = c1 # cs'"
    by (auto simp: bindE_eq_Inr)
  note s = passA_slot_Inr [OF slot]
  note r = Cons.IH [OF rest]
  let ?ka = "spec_partialCredit now ep T (algoRewardAvail p) c"
  let ?kt = "spec_partialCredit now ep T (tokenRewardAvail p) c"
  have p1: "algoRewardAvail p1 = algoRewardAvail p - ?ka"
    "tokenRewardAvail p1 = tokenRewardAvail p - ?kt"
    "tokenRewardPaidOut p1 = tokenRewardPaidOut p + ?kt"
    "increasedStake p1 = increasedStake p + ?ka"
    "partialStakersTotalStake p1 = partialStakersTotalStake p
       + (if spec_partial now ep c \<or> spec_future now c then balance c else 0)"
    using s by simp_all
  have le: "?ka \<le> algoRewardAvail p" "?kt \<le> tokenRewardAvail p"
    using s by simp_all
  have c1: "c1 = creditStaker c ?ka ?kt"
    using s by simp
  define SA where "SA = sum_list (spec_passA now ep T (algoRewardAvail p - ?ka) cs)"
  define ST where "ST = sum_list (spec_passA now ep T (tokenRewardAvail p - ?kt) cs)"
  have rs: "cs' = applyCredits cs (spec_passA now ep T (algoRewardAvail p - ?ka) cs)
                    (spec_passA now ep T (tokenRewardAvail p - ?kt) cs)"
    "SA \<le> algoRewardAvail p - ?ka" "ST \<le> tokenRewardAvail p - ?kt"
    "algoRewardAvail p' = algoRewardAvail p - ?ka - SA"
    "tokenRewardAvail p' = tokenRewardAvail p - ?kt - ST"
    "tokenRewardPaidOut p' = tokenRewardPaidOut p + ?kt + ST"
    "increasedStake p' = increasedStake p + ?ka + SA"
    "partialStakersTotalStake p' = partialStakersTotalStake p
       + (if spec_partial now ep c \<or> spec_future now c then balance c else 0)
       + spec_partialStakersTotalStake now ep cs"
    using r unfolding p1 SA_def ST_def by simp_all
  have sumA: "sum_list (spec_passA now ep T (algoRewardAvail p) (c # cs)) = ?ka + SA"
    by (simp add: SA_def)
  have sumT: "sum_list (spec_passA now ep T (tokenRewardAvail p) (c # cs)) = ?kt + ST"
    by (simp add: ST_def)
  have "xs' = applyCredits (c # cs) (spec_passA now ep T (algoRewardAvail p) (c # cs))
             (spec_passA now ep T (tokenRewardAvail p) (c # cs))"
    unfolding xs' c1 rs(1) by simp
  moreover have "?ka + SA \<le> algoRewardAvail p" "?kt + ST \<le> tokenRewardAvail p"
    using le rs(2,3) by linarith+
  moreover have "algoRewardAvail p' = algoRewardAvail p - (?ka + SA)"
    "tokenRewardAvail p' = tokenRewardAvail p - (?kt + ST)"
    "tokenRewardPaidOut p' = tokenRewardPaidOut p + (?kt + ST)"
    "increasedStake p' = increasedStake p + (?ka + SA)"
    using rs by simp_all
  moreover have "partialStakersTotalStake p'
      = partialStakersTotalStake p + spec_partialStakersTotalStake now ep (c # cs)"
    using rs(8) by (simp add: spec_partialStakersTotalStake_Cons)
  ultimately show ?case
    unfolding sumA sumT by blast
qed


lemma fullTokenCredit_Inr:
  assumes "fullTokenCredit N (c, p) = Inr (c', p')"
  shows "c' = creditStaker c 0 (balance c * tokenRewardAvail p div N)
       \<and> p' = p\<lparr> tokenRewardPaidOut := tokenRewardPaidOut p + balance c * tokenRewardAvail p div N \<rparr>"
proof (cases "0 < tokenRewardAvail p")
  case True
  with assms show ?thesis
    unfolding fullTokenCredit_def Let_def creditStaker_def
    by (auto simp: bindE_eq_Inr add64_Inr wideRatio_Inr)
next
  case False
  with assms show ?thesis
    unfolding fullTokenCredit_def Let_def creditStaker_def
    by simp
qed

lemma fullAlgoCredit_Inr:
  assumes "fullAlgoCredit N (c, p) = Inr (c', p')"
  shows "c' = creditStaker c (balance c * algoRewardAvail p div N) 0
       \<and> p' = p\<lparr> increasedStake := increasedStake p + balance c * algoRewardAvail p div N \<rparr>"
proof (cases "0 < algoRewardAvail p")
  case True
  with assms show ?thesis
    unfolding fullAlgoCredit_def Let_def creditStaker_def
    by (auto simp: bindE_eq_Inr add64_Inr wideRatio_Inr)
next
  case False
  with assms show ?thesis
    unfolding fullAlgoCredit_def Let_def creditStaker_def
    by simp
qed

lemma passB_slot_Inr:
  assumes "passB_slot now ep N c p = Inr (c', p')"
  shows "c' = creditStaker c (passB_credit now ep N (algoRewardAvail p) c)
                (passB_credit now ep N (tokenRewardAvail p) c)
       \<and> p' = p\<lparr> tokenRewardPaidOut := tokenRewardPaidOut p + passB_credit now ep N (tokenRewardAvail p) c,
                 increasedStake := increasedStake p + passB_credit now ep N (algoRewardAvail p) c \<rparr>"
proof (cases "passB_pays now ep c")
  case False
  then have "passB_credit now ep N R c = 0" for R
    by (simp add: passB_credit_def)
  moreover from False assms have "c' = c" "p' = p"
    by (auto simp: passB_slot_def passB_pays_def split: if_splits)
  ultimately show ?thesis by simp
next
  case True
  then have cr: "passB_credit now ep N R c = balance c * R div N" for R
    by (simp add: passB_credit_def)
  from True assms obtain c1 p1 where
    tok: "fullTokenCredit N (c, p) = Inr (c1, p1)"
    and alg: "fullAlgoCredit N (c1, p1) = Inr (c', p')"
    unfolding passB_slot_def passB_pays_def
    by (auto simp: bindE_eq_Inr)
  note t = fullTokenCredit_Inr [OF tok]
  note a = fullAlgoCredit_Inr [OF alg]
  have f1: "balance c1 = balance c" "algoRewardAvail p1 = algoRewardAvail p"
    using t by simp_all
  have "c' = creditStaker c (balance c * algoRewardAvail p div N) (balance c * tokenRewardAvail p div N)"
    using t a f1 by (simp add: creditStaker_twice)
  moreover have "p' = p\<lparr> tokenRewardPaidOut := tokenRewardPaidOut p + balance c * tokenRewardAvail p div N,
                 increasedStake := increasedStake p + balance c * algoRewardAvail p div N \<rparr>"
    using t a f1 by simp
  ultimately show ?thesis by (simp add: cr)
qed

lemma passB_Inr:
  "passB now ep N xs p = Inr (xs', p') \<Longrightarrow>
     xs' = applyCredits xs (map (passB_credit now ep N (algoRewardAvail p)) xs)
             (map (passB_credit now ep N (tokenRewardAvail p)) xs)
     \<and> algoRewardAvail p' = algoRewardAvail p
     \<and> tokenRewardAvail p' = tokenRewardAvail p
     \<and> tokenRewardPaidOut p' = tokenRewardPaidOut p + sum_list (map (passB_credit now ep N (tokenRewardAvail p)) xs)
     \<and> increasedStake p' = increasedStake p + sum_list (map (passB_credit now ep N (algoRewardAvail p)) xs)
     \<and> partialStakersTotalStake p' = partialStakersTotalStake p"
proof (induction xs arbitrary: p xs' p')
  case Nil
  then show ?case by simp
next
  case (Cons c cs)
  from Cons.prems obtain c1 p1 cs' where
    slot: "passB_slot now ep N c p = Inr (c1, p1)"
    and rest: "passB now ep N cs p1 = Inr (cs', p')"
    and xs': "xs' = c1 # cs'"
    by (auto simp: bindE_eq_Inr)
  note s = passB_slot_Inr [OF slot]
  note r = Cons.IH [OF rest]
  have p1: "algoRewardAvail p1 = algoRewardAvail p" "tokenRewardAvail p1 = tokenRewardAvail p"
    "tokenRewardPaidOut p1 = tokenRewardPaidOut p + passB_credit now ep N (tokenRewardAvail p) c"
    "increasedStake p1 = increasedStake p + passB_credit now ep N (algoRewardAvail p) c"
    "partialStakersTotalStake p1 = partialStakersTotalStake p"
    using s by simp_all
  have c1: "c1 = creditStaker c (passB_credit now ep N (algoRewardAvail p) c)
                (passB_credit now ep N (tokenRewardAvail p) c)"
    using s by simp
  show ?case
    using r unfolding xs' p1 c1 by simp
qed


lemma passB_pays_not_partial:
  "passB_pays now ep c \<Longrightarrow> spec_partialCredit now ep T R c = 0"
  by (auto simp: passB_pays_def spec_partialCredit_def spec_partial_def)

lemma passB_credit_creditStaker:
  "passB_credit now ep N R' (creditStaker c (spec_partialCredit now ep T R c) t)
     = passB_credit now ep N R' c"
  by (auto simp: passB_credit_def passB_pays_def passB_pays_not_partial)

lemma map_passB_credit_applyCredits:
  "length ts = length xs \<Longrightarrow>
     map (passB_credit now ep N R') (applyCredits xs (spec_passA now ep T R xs) ts)
       = map (passB_credit now ep N R') xs"
proof (induction xs arbitrary: R ts)
  case Nil
  then show ?case by simp
next
  case (Cons c cs)
  then obtain t ts' where ts: "ts = t # ts'" "length ts' = length cs"
    by (cases ts) auto
  show ?case
    unfolding ts using Cons.IH [OF ts(2)]
    by (simp add: passB_credit_creditStaker)
qed

lemma applyCredits_twice:
  "length as = length xs \<Longrightarrow> length ts = length xs \<Longrightarrow>
   length bs = length xs \<Longrightarrow> length us = length xs \<Longrightarrow>
     applyCredits (applyCredits xs as ts) bs us
       = applyCredits xs (map2 (+) as bs) (map2 (+) ts us)"
proof (induction xs arbitrary: as ts bs us)
  case Nil
  then show ?case by simp
next
  case (Cons c cs)
  then obtain a as' t ts' b bs' u us' where
    "as = a # as'" "ts = t # ts'" "bs = b # bs'" "us = u # us'"
    "length as' = length cs" "length ts' = length cs"
    "length bs' = length cs" "length us' = length cs"
    by (auto simp: length_Suc_conv)
  then show ?case
    using Cons.IH [of as' ts' bs' us'] by (simp add: creditStaker_twice)
qed

lemma map2_add_fun:
  "length as = length xs \<Longrightarrow> map2 (\<lambda>c a. a + f c) xs as = map2 (+) as (map f xs)"
proof (induction xs arbitrary: as)
  case Nil
  then show ?case by simp
next
  case (Cons c cs)
  then obtain a as' where "as = a # as'" "length as' = length cs"
    by (auto simp: length_Suc_conv)
  then show ?case using Cons.IH [of as'] by simp
qed

lemma map2_add_zero:
  "length as = length xs \<Longrightarrow> map2 (\<lambda>c a. a + (0::nat)) xs as = as"
proof (induction xs arbitrary: as)
  case Nil
  then show ?case by simp
next
  case (Cons c cs)
  then obtain a as' where "as = a # as'" "length as' = length cs"
    by (auto simp: length_Suc_conv)
  then show ?case using Cons.IH [of as'] by simp
qed

lemma sum_list_map2_add:
  "length as = length bs \<Longrightarrow> sum_list (map2 (+) as bs) = sum_list as + sum_list (bs :: nat list)"
proof (induction as arbitrary: bs)
  case Nil
  then show ?case by simp
next
  case (Cons a as)
  then obtain b bs' where "bs = b # bs'" "length as = length bs'"
    by (cases bs) auto
  then show ?case using Cons.IH [of bs'] by simp
qed

lemma code_credits_none:
  "T - spec_partialStakersTotalStake now ep xs = 0 \<Longrightarrow>
     code_credits now ep T R xs = spec_passA now ep T R xs"
  using map2_add_zero [of "spec_passA now ep T R xs" xs]
  by (simp add: code_credits_def Let_def)

lemma code_credits_some:
  "T - spec_partialStakersTotalStake now ep xs \<noteq> 0 \<Longrightarrow>
     code_credits now ep T R xs
       = map2 (+) (spec_passA now ep T R xs)
           (map (passB_credit now ep (T - spec_partialStakersTotalStake now ep xs)
                   (R - sum_list (spec_passA now ep T R xs))) xs)"
  by (simp add: code_credits_def Let_def map2_add_fun)

lemma distribute_Inr:
  assumes "distribute now ep T xs R Tk = Inr (xs', p)"
  shows "xs' = applyCredits xs (code_credits now ep T R xs) (code_credits now ep T Tk xs)
       \<and> increasedStake p = sum_list (code_credits now ep T R xs)
       \<and> tokenRewardPaidOut p = sum_list (code_credits now ep T Tk xs)
       \<and> partialStakersTotalStake p = spec_partialStakersTotalStake now ep xs
       \<and> spec_partialStakersTotalStake now ep xs \<le> T
       \<and> sum_list (spec_passA now ep T R xs) \<le> R
       \<and> sum_list (spec_passA now ep T Tk xs) \<le> Tk"
proof -
  let ?p0 = "\<lparr> algoRewardAvail = R, tokenRewardAvail = Tk, tokenRewardPaidOut = 0,
               increasedStake = 0, partialStakersTotalStake = 0 \<rparr>"
  let ?A = "spec_passA now ep T R xs"
  let ?At = "spec_passA now ep T Tk xs"
  let ?N = "T - spec_partialStakersTotalStake now ep xs"
  from assms obtain ap where
    a0: "passA now ep T xs ?p0 = Inr ap"
    and rest: "bindE (sub64 T (partialStakersTotalStake (snd ap)))
                 (\<lambda>n. if 0 < n then passB now ep n (fst ap) (snd ap) else Inr ap) = Inr (xs', p)"
    unfolding distribute_def
    by (cases "passA now ep T xs ?p0") simp_all
  obtain xsA pA where ap: "ap = (xsA, pA)"
    by (cases ap)
  have a: "passA now ep T xs ?p0 = Inr (xsA, pA)"
    using a0 ap by simp
  from rest have sub: "partialStakersTotalStake pA \<le> T"
    unfolding ap by (cases "sub64 T (partialStakersTotalStake pA)") (simp_all add: sub64_Inr)
  then have "sub64 T (partialStakersTotalStake pA) = Inr (T - partialStakersTotalStake pA)"
    by (simp add: sub64_def)
  with rest have b: "(if 0 < T - partialStakersTotalStake pA
             then passB now ep (T - partialStakersTotalStake pA) xsA pA
             else Inr (xsA, pA)) = Inr (xs', p)"
    unfolding ap by (auto split: if_splits)
  have A: "xsA = applyCredits xs ?A ?At" "sum_list ?A \<le> R" "sum_list ?At \<le> Tk"
    "algoRewardAvail pA = R - sum_list ?A" "tokenRewardAvail pA = Tk - sum_list ?At"
    "tokenRewardPaidOut pA = sum_list ?At" "increasedStake pA = sum_list ?A"
    "partialStakersTotalStake pA = spec_partialStakersTotalStake now ep xs"
    using passA_Inr [OF a] by simp_all
  show ?thesis
  proof (cases "?N = 0")
    case True
    with b A(8) have "xs' = xsA" "p = pA" by simp_all
    with A sub True show ?thesis
      by (simp add: code_credits_none)
  next
    case False
    with b A(8) have pb: "passB now ep ?N xsA pA = Inr (xs', p)" by simp
    note B = passB_Inr [OF pb]
    let ?B = "map (passB_credit now ep ?N (R - sum_list ?A)) xs"
    let ?Bt = "map (passB_credit now ep ?N (Tk - sum_list ?At)) xs"
    have mb: "map (passB_credit now ep ?N R') xsA = map (passB_credit now ep ?N R') xs" for R'
      unfolding A(1) by (rule map_passB_credit_applyCredits) simp
    have "xs' = applyCredits xsA ?B ?Bt"
      using B by (simp add: A(4,5) mb)
    then have x: "xs' = applyCredits xs (map2 (+) ?A ?B) (map2 (+) ?At ?Bt)"
      unfolding A(1) by (simp add: applyCredits_twice)
    have i: "increasedStake p = sum_list ?A + sum_list ?B"
      using B by (simp add: A(4,7) mb)
    have t: "tokenRewardPaidOut p = sum_list ?At + sum_list ?Bt"
      using B by (simp add: A(5,6) mb)
    have ps: "partialStakersTotalStake p = spec_partialStakersTotalStake now ep xs"
      using B A(8) by simp
    show ?thesis
      using x i t ps sub A(2,3,8) False
      by (simp add: code_credits_some sum_list_map2_add)
  qed
qed

section \<open>The epoch update keeps the ledger consistent\<close>

lemma occupied_creditStaker [simp]: "occupied (creditStaker c a t) = occupied c"
  by (simp add: occupied_def)

lemma spec_partialCredit_unoccupied: "\<not> occupied c \<Longrightarrow> spec_partialCredit now ep T R c = 0"
  by (simp add: spec_partialCredit_def spec_partial_def)

lemma passB_credit_unoccupied: "\<not> occupied c \<Longrightarrow> passB_credit now ep N R c = 0"
  by (simp add: passB_credit_def passB_pays_def occupied_def)

lemma occupiedStake_Cons:
  "occupiedStake (c # cs) = (if occupied c then balance c else 0) + occupiedStake cs"
  by (simp add: occupiedStake_def)

lemma occupiedStake_Nil [simp]: "occupiedStake [] = 0"
  by (simp add: occupiedStake_def)

lemma passA_ledger:
  "passA now ep T xs p = Inr (xs', p') \<Longrightarrow>
     occupiedStake xs' + increasedStake p = occupiedStake xs + increasedStake p'
     \<and> map account xs' = map account xs"
proof (induction xs arbitrary: p xs' p')
  case Nil
  then show ?case by simp
next
  case (Cons c cs)
  from Cons.prems obtain c1 p1 cs' where
    slot: "passA_slot now ep T c p = Inr (c1, p1)"
    and rest: "passA now ep T cs p1 = Inr (cs', p')"
    and xs': "xs' = c1 # cs'"
    by (auto simp: bindE_eq_Inr)
  note s = passA_slot_Inr [OF slot]
  note r = Cons.IH [OF rest]
  let ?ka = "spec_partialCredit now ep T (algoRewardAvail p) c"
  have c1: "c1 = creditStaker c ?ka (spec_partialCredit now ep T (tokenRewardAvail p) c)"
    and i1: "increasedStake p1 = increasedStake p + ?ka"
    using s by simp_all
  have r1: "occupiedStake cs' + (increasedStake p + ?ka) = occupiedStake cs + increasedStake p'"
    and r2: "map account cs' = map account cs"
    using r unfolding i1 by simp_all
  have h: "occupiedStake (c1 # cs') = (if occupied c then balance c else 0) + ?ka + occupiedStake cs'"
    unfolding c1 by (simp add: occupiedStake_Cons spec_partialCredit_unoccupied)
  have "occupiedStake (c1 # cs') + increasedStake p = occupiedStake (c # cs) + increasedStake p'"
    unfolding h using r1 by (simp add: occupiedStake_Cons)
  moreover have "map account (c1 # cs') = map account (c # cs)"
    using r2 by (simp add: c1)
  ultimately show ?case unfolding xs' by blast
qed

lemma passB_ledger:
  "passB now ep N xs p = Inr (xs', p') \<Longrightarrow>
     occupiedStake xs' + increasedStake p = occupiedStake xs + increasedStake p'
     \<and> map account xs' = map account xs"
proof (induction xs arbitrary: p xs' p')
  case Nil
  then show ?case by simp
next
  case (Cons c cs)
  from Cons.prems obtain c1 p1 cs' where
    slot: "passB_slot now ep N c p = Inr (c1, p1)"
    and rest: "passB now ep N cs p1 = Inr (cs', p')"
    and xs': "xs' = c1 # cs'"
    by (auto simp: bindE_eq_Inr)
  note s = passB_slot_Inr [OF slot]
  note r = Cons.IH [OF rest]
  let ?ka = "passB_credit now ep N (algoRewardAvail p) c"
  have c1: "c1 = creditStaker c ?ka (passB_credit now ep N (tokenRewardAvail p) c)"
    and i1: "increasedStake p1 = increasedStake p + ?ka"
    using s by simp_all
  have r1: "occupiedStake cs' + (increasedStake p + ?ka) = occupiedStake cs + increasedStake p'"
    and r2: "map account cs' = map account cs"
    using r unfolding i1 by simp_all
  have h: "occupiedStake (c1 # cs') = (if occupied c then balance c else 0) + ?ka + occupiedStake cs'"
    unfolding c1 by (simp add: occupiedStake_Cons passB_credit_unoccupied)
  have "occupiedStake (c1 # cs') + increasedStake p = occupiedStake (c # cs) + increasedStake p'"
    unfolding h using r1 by (simp add: occupiedStake_Cons)
  moreover have "map account (c1 # cs') = map account (c # cs)"
    using r2 by (simp add: c1)
  ultimately show ?case unfolding xs' by blast
qed

lemma distribute_ledger:
  assumes "distribute now ep T xs R Tk = Inr (xs', p)"
  shows "occupiedStake xs' = occupiedStake xs + increasedStake p
       \<and> map account xs' = map account xs"
proof -
  let ?p0 = "\<lparr> algoRewardAvail = R, tokenRewardAvail = Tk, tokenRewardPaidOut = 0,
               increasedStake = 0, partialStakersTotalStake = 0 \<rparr>"
  from assms obtain ap where
    a0: "passA now ep T xs ?p0 = Inr ap"
    and rest: "bindE (sub64 T (partialStakersTotalStake (snd ap)))
                 (\<lambda>n. if 0 < n then passB now ep n (fst ap) (snd ap) else Inr ap) = Inr (xs', p)"
    unfolding distribute_def
    by (cases "passA now ep T xs ?p0") simp_all
  obtain xsA pA where ap: "ap = (xsA, pA)"
    by (cases ap)
  have a: "passA now ep T xs ?p0 = Inr (xsA, pA)"
    using a0 ap by simp
  note A = passA_ledger [OF a]
  define n where "n = T - partialStakersTotalStake pA"
  from rest have sub: "partialStakersTotalStake pA \<le> T"
    unfolding ap by (cases "sub64 T (partialStakersTotalStake pA)") (simp_all add: sub64_Inr)
  then have "sub64 T (partialStakersTotalStake pA) = Inr n"
    by (simp add: sub64_def n_def)
  with rest have b: "(if 0 < n then passB now ep n xsA pA else Inr (xsA, pA)) = Inr (xs', p)"
    unfolding ap by (auto split: if_splits)
  show ?thesis
  proof (cases "0 < n")
    case True
    with b have "passB now ep n xsA pA = Inr (xs', p)" by simp
    from passB_ledger [OF this] A show ?thesis by simp
  next
    case False
    with b have "xs' = xsA" "p = pA" by simp_all
    with A show ?thesis by simp
  qed
qed

lemma filter_occupied_map_account:
  "map account xs' = map account xs \<Longrightarrow>
     length (filter occupied xs') = length (filter occupied xs)"
proof -
  assume a: "map account xs' = map account xs"
  have key: "length (filter occupied ys) = length (filter (\<lambda>a. a \<noteq> zeroAddress) (map account ys))" for ys
    by (induction ys) (simp_all add: occupied_def)
  show ?thesis unfolding key a by (rule refl)
qed



lemma epochBalanceUpdate_ledger_ok:
  assumes "epochBalanceUpdate e s = Inr r" "ledger_ok s"
  shows "ledger_ok (outPool r)"
  using assms(1)
proof (rule epochBalanceUpdate_Inr)
  fix ep R tok xs xs' p
  assume xs: "stakers s = Some xs"
    and d: "distribute (latestTimestamp e) ep (totalAlgoStaked s) xs R tok = Inr (xs', p)"
    and out: "outPool r = s\<lparr> lastPayout := Some (latestTimestamp e), epochNumber := epochNumber s + 1,
                      stakers := Some xs', totalAlgoStaked := totalAlgoStaked s + increasedStake p \<rparr>"
  have L1: "occupiedStake xs' = occupiedStake xs + increasedStake p"
    and L2: "map account xs' = map account xs"
    using distribute_ledger [OF d] by blast+
  from assms(2) have t: "totalAlgoStaked s = occupiedStake xs"
    and n: "numStakers s = length (filter occupied xs)"
    unfolding ledger_ok_def xs by simp_all
  have st: "stakers (outPool r) = Some xs'"
    and tt: "totalAlgoStaked (outPool r) = totalAlgoStaked s + increasedStake p"
    and nn: "numStakers (outPool r) = numStakers s"
    unfolding out by simp_all
  have len: "length (filter occupied xs') = length (filter occupied xs)"
    using L2 by (rule filter_occupied_map_account)
  have "totalAlgoStaked (outPool r) = occupiedStake xs'"
    unfolding tt t L1 by (rule refl)
  moreover have "numStakers (outPool r) = length (filter occupied xs')"
    unfolding nn n len by (rule refl)
  ultimately show "ledger_ok (outPool r)"
    unfolding ledger_ok_def st by simp
qed

section \<open>The stake ledger under add, remove and claim\<close>

lemma findStaker_Some:
  "findStaker a xs k = Some i \<Longrightarrow> k \<le> i \<and> i - k < length xs \<and> account (xs ! (i - k)) = a"
proof (induction xs arbitrary: k)
  case Nil
  then show ?case by simp
next
  case (Cons c cs)
  show ?case
  proof (cases "account c = a")
    case True
    with Cons.prems show ?thesis by simp
  next
    case False
    with Cons.prems have "findStaker a cs (k + 1) = Some i" by simp
    from Cons.IH [OF this] have "k + 1 \<le> i" "i - (k + 1) < length cs"
      "account (cs ! (i - (k + 1))) = a" by simp_all
    moreover from \<open>k + 1 \<le> i\<close> have "i - k = Suc (i - (k + 1))" by simp
    ultimately show ?thesis by simp
  qed
qed

lemma findStaker_0:
  "findStaker a xs 0 = Some i \<Longrightarrow> i < length xs \<and> account (xs ! i) = a"
  using findStaker_Some [of a xs 0 i] by simp

lemma addStake_scan_Inl:
  "addStake_scan a xs k = Inl i \<Longrightarrow> k \<le> i \<and> i - k < length xs \<and> account (xs ! (i - k)) = a"
proof (induction xs arbitrary: k)
  case Nil
  then show ?case by simp
next
  case (Cons c cs)
  show ?case
  proof (cases "account c = a")
    case True
    with Cons.prems show ?thesis by simp
  next
    case False
    with Cons.prems have "addStake_scan a cs (k + 1) = Inl i"
      by (simp split: if_splits)
    from Cons.IH [OF this] have "k + 1 \<le> i" "i - (k + 1) < length cs"
      "account (cs ! (i - (k + 1))) = a" by simp_all
    moreover from \<open>k + 1 \<le> i\<close> have "i - k = Suc (i - (k + 1))" by simp
    ultimately show ?thesis by simp
  qed
qed

lemma addStake_scan_Inr:
  "addStake_scan a xs k = Inr f \<Longrightarrow> f \<noteq> 0 \<Longrightarrow>
     k < f \<and> f - 1 - k < length xs \<and> account (xs ! (f - 1 - k)) = zeroAddress"
proof (induction xs arbitrary: k)
  case Nil
  then show ?case by simp
next
  case (Cons c cs)
  show ?case
  proof (cases "account c = a \<or> account c = zeroAddress")
    case True
    with Cons.prems show ?thesis by (auto split: if_splits)
  next
    case False
    with Cons.prems have "addStake_scan a cs (k + 1) = Inr f"
      by (simp split: if_splits)
    from Cons.IH [OF this Cons.prems(2)] have "k + 1 < f" "f - 1 - (k + 1) < length cs"
      "account (cs ! (f - 1 - (k + 1))) = zeroAddress" by simp_all
    moreover from \<open>k + 1 < f\<close> have "f - 1 - k = Suc (f - 1 - (k + 1))" by simp
    ultimately show ?thesis by simp
  qed
qed

lemma occupiedStake_update:
  "i < length xs \<Longrightarrow>
     occupiedStake (xs[i := y]) + (if occupied (xs ! i) then balance (xs ! i) else 0)
       = occupiedStake xs + (if occupied y then balance y else 0)"
proof (induction xs arbitrary: i)
  case Nil
  then show ?case by simp
next
  case (Cons c cs)
  show ?case
  proof (cases i)
    case 0
    then show ?thesis by (simp add: occupiedStake_Cons)
  next
    case (Suc j)
    with Cons.prems have "j < length cs" by simp
    from Cons.IH [OF this] show ?thesis
      unfolding Suc by (auto simp: occupiedStake_Cons split: if_splits)
  qed
qed

lemma occupiedCount_update:
  "i < length xs \<Longrightarrow>
     length (filter occupied (xs[i := y])) + (if occupied (xs ! i) then 1 else 0)
       = length (filter occupied xs) + (if occupied y then 1 else 0)"
proof (induction xs arbitrary: i)
  case Nil
  then show ?case by simp
next
  case (Cons c cs)
  show ?case
  proof (cases i)
    case 0
    then show ?thesis by simp
  next
    case (Suc j)
    with Cons.prems have "j < length cs" by simp
    from Cons.IH [OF this] show ?thesis
      unfolding Suc by (auto split: if_splits)
  qed
qed


lemma removeStake_found:
  assumes "stakers s = Some xs" and "findStaker (txnSender e) xs 0 = Some i"
  shows "removeStake e amountToUnstake0 s =
     (let cmpStaker = xs ! i;
          amountToUnstake = (if amountToUnstake0 = 0 then balance cmpStaker else amountToUnstake0);
          newBalance = balance cmpStaker - amountToUnstake;
          tokenTxns =
            (if rewardTokenBalance cmpStaker > 0 \<and> poolId s = 1
             then [AssetTransfer (rewardTokenId (getValidatorConfig e (validatorId s)))
                     (txnSender e) (rewardTokenBalance cmpStaker)]
             else []);
          payment = Payment amountToUnstake (txnSender e) ''unstaked'';
          stakeRemoved = CallStakeRemoved (thisPoolKey e s) (txnSender e) amountToUnstake
                           (rewardTokenBalance cmpStaker) (newBalance = 0)
      in
      if balance cmpStaker < amountToUnstake then Inl (Thrown ''Insufficient balance'')
      else if totalAlgoStaked s < amountToUnstake then Inl Underflow
      else if \<not> list_all (innerTxnAccepted e) tokenTxns then Inl InnerTxnRefused
      else if \<not> (newBalance = 0 \<or> minEntryStake s \<le> newBalance)
        then Inl (AssertFailed
               ''cannot reduce balance below minimum allowed stake unless all is removed'')
      else if \<not> innerTxnAccepted e payment then Inl InnerTxnRefused
      else if newBalance = 0 \<and> numStakers s = 0 then Inl Underflow
      else if \<not> innerTxnAccepted e stakeRemoved then Inl InnerTxnRefused
      else Inr (s\<lparr> stakers := Some (xs[i :=
                     (if newBalance = 0
                      then cmpStaker\<lparr> account := zeroAddress, balance := newBalance,
                                      totalRewarded := 0, rewardTokenBalance := 0 \<rparr>
                      else cmpStaker\<lparr> balance := newBalance, rewardTokenBalance := 0 \<rparr>)]),
                 numStakers := (if newBalance = 0 then numStakers s - 1 else numStakers s),
                 totalAlgoStaked := totalAlgoStaked s - amountToUnstake \<rparr>,
              tokenTxns @ [payment, stakeRemoved]))"
  using assms
  by (simp add: removeStake_def submit_def Let_def sub64_def)


lemma ledger_okI:
  "stakers s = Some xs \<Longrightarrow> totalAlgoStaked s = occupiedStake xs \<Longrightarrow>
   numStakers s = length (filter occupied xs) \<Longrightarrow> ledger_ok s"
  by (simp add: ledger_ok_def)

lemma ledger_okD:
  "ledger_ok s \<Longrightarrow> stakers s = Some xs \<Longrightarrow>
     totalAlgoStaked s = occupiedStake xs \<and> numStakers s = length (filter occupied xs)"
  by (simp add: ledger_ok_def)

lemma occupied_slot_bounds:
  assumes "i < length xs" "occupied (xs ! i)"
  shows "balance (xs ! i) \<le> occupiedStake xs \<and> 1 \<le> length (filter occupied xs)"
proof -
  from assms have m: "xs ! i \<in> set (filter occupied xs)" by simp
  then have "balance (xs ! i) \<le> sum_list (map balance (filter occupied xs))"
    by (simp add: member_le_sum_list)
  moreover have "0 < length (filter occupied xs)"
    using m by (rule length_pos_if_in_set)
  then have "1 \<le> length (filter occupied xs)"
    by linarith
  ultimately show ?thesis by (simp add: occupiedStake_def)
qed

lemma removeStake_ledger_ok:
  assumes r: "removeStake e amountToUnstake0 s = Inr (s', txns)"
    and l: "ledger_ok s"
    and nz: "txnSender e \<noteq> zeroAddress"
  shows "ledger_ok s'"
proof -
  from r obtain xs where xs: "stakers s = Some xs"
    by (cases "stakers s") (simp_all add: removeStake_def)
  from r xs obtain i where f: "findStaker (txnSender e) xs 0 = Some i"
    by (cases "findStaker (txnSender e) xs 0") (simp_all add: removeStake_def Let_def)
  from findStaker_0 [OF f] have i: "i < length xs" and acc: "account (xs ! i) = txnSender e"
    by simp_all
  from acc nz have occ: "occupied (xs ! i)" by (simp add: occupied_def)
  define amt where "amt = (if amountToUnstake0 = 0 then balance (xs ! i) else amountToUnstake0)"
  define nb where "nb = balance (xs ! i) - amt"
  define y where "y = (if nb = 0
                      then (xs ! i)\<lparr> account := zeroAddress, balance := nb,
                                      totalRewarded := 0, rewardTokenBalance := 0 \<rparr>
                      else (xs ! i)\<lparr> balance := nb, rewardTokenBalance := 0 \<rparr>)"
  from r have le: "amt \<le> balance (xs ! i)"
    and s': "s' = s\<lparr> stakers := Some (xs[i := y]),
                 numStakers := (if nb = 0 then numStakers s - 1 else numStakers s),
                 totalAlgoStaked := totalAlgoStaked s - amt \<rparr>"
    unfolding removeStake_found [OF xs f] Let_def amt_def nb_def y_def
    by (auto split: if_splits)
  from ledger_okD [OF l xs] have t: "totalAlgoStaked s = occupiedStake xs"
    and n: "numStakers s = length (filter occupied xs)" by simp_all
  have yo: "occupied y \<longleftrightarrow> nb \<noteq> 0" "balance y = nb"
    using occ by (simp_all add: y_def occupied_def)
  have b: "balance (xs ! i) \<le> occupiedStake xs" "1 \<le> length (filter occupied xs)"
    using occupied_slot_bounds [OF i occ] by simp_all
  have "occupiedStake (xs[i := y]) + balance (xs ! i) = occupiedStake xs + nb"
    using occupiedStake_update [OF i, of y] occ yo by (auto split: if_splits)
  then have S: "occupiedStake (xs[i := y]) = occupiedStake xs - amt"
    using le b(1) unfolding nb_def by linarith
  have "length (filter occupied (xs[i := y])) + 1
          = length (filter occupied xs) + (if nb = 0 then 0 else 1)"
    using occupiedCount_update [OF i, of y] occ yo by (auto split: if_splits)
  then have C: "length (filter occupied (xs[i := y]))
          = (if nb = 0 then length (filter occupied xs) - 1 else length (filter occupied xs))"
    using b(2) by (auto split: if_splits)
  show ?thesis
  proof (rule ledger_okI)
    show "stakers s' = Some (xs[i := y])" by (simp add: s')
    show "totalAlgoStaked s' = occupiedStake (xs[i := y])" by (simp add: s' S t)
    show "numStakers s' = length (filter occupied (xs[i := y]))" by (simp add: s' C n)
  qed
qed

lemma claimTokens_ledger_ok:
  assumes r: "claimTokens e s = Inr (s', txns)"
    and l: "ledger_ok s"
  shows "ledger_ok s'"
proof -
  from r obtain xs where xs: "stakers s = Some xs"
    by (cases "stakers s") (simp_all add: claimTokens_def)
  from r xs obtain i where f: "findStaker (txnSender e) xs 0 = Some i"
    by (cases "findStaker (txnSender e) xs 0") (simp_all add: claimTokens_def Let_def)
  from findStaker_0 [OF f] have i: "i < length xs" by simp
  define y where "y = (xs ! i)\<lparr> rewardTokenBalance := 0 \<rparr>"
  from r have s': "s' = s \<or> s' = s\<lparr> stakers := Some (xs[i := y]) \<rparr>"
    unfolding claimTokens_def Let_def y_def using xs f
    by (auto split: if_splits)
  from ledger_okD [OF l xs] have t: "totalAlgoStaked s = occupiedStake xs"
    and n: "numStakers s = length (filter occupied xs)" by simp_all
  have yo: "occupied y = occupied (xs ! i)" "balance y = balance (xs ! i)"
    by (simp_all add: y_def occupied_def)
  have S: "occupiedStake (xs[i := y]) = occupiedStake xs"
    using occupiedStake_update [OF i, of y] yo by (auto split: if_splits)
  have C: "length (filter occupied (xs[i := y])) = length (filter occupied xs)"
    using occupiedCount_update [OF i, of y] yo by (auto split: if_splits)
  from s' show ?thesis
  proof
    assume "s' = s"
    with l show ?thesis by simp
  next
    assume e: "s' = s\<lparr> stakers := Some (xs[i := y]) \<rparr>"
    show ?thesis
    proof (rule ledger_okI)
      show "stakers s' = Some (xs[i := y])" by (simp add: e)
      show "totalAlgoStaked s' = occupiedStake (xs[i := y])" by (simp add: e S t)
      show "numStakers s' = length (filter occupied (xs[i := y]))" by (simp add: e C n)
    qed
  qed
qed

lemma addStake_existing:
  assumes "stakers s = Some xs" "addStake_scan staker xs 0 = Inl i"
    and "addStake e pay staker s = Inr ((s', txns), n)"
  shows "s' = s\<lparr> stakers := Some (xs[i := (xs ! i)\<lparr> balance := balance (xs ! i) + payAmount pay,
                                                   entryTime := n \<rparr>]),
                 totalAlgoStaked := totalAlgoStaked s + payAmount pay \<rparr>
       \<and> staker \<noteq> zeroAddress"
proof -
  from assms(3) have g: "txnSender e = appAddress e (creatingValidatorContractAppId s)"
    "staker \<noteq> zeroAddress"
    "paySender pay = appAddress e (creatingValidatorContractAppId s)"
    "payReceiver pay = thisAppAddress e"
    unfolding addStake_def assms(1) by (simp_all split: if_splits)
  from assms(3) obtain t where t: "getEntryTime e = Inr t"
    unfolding addStake_def assms(1) using g by (cases "getEntryTime e") simp_all
  show ?thesis
    using assms(3) unfolding addStake_def assms(1)
    by (simp add: g t assms(2) bindE_eq_Inr add64_Inr split: if_splits) blast?
qed

lemma addStake_new:
  assumes "stakers s = Some xs" "addStake_scan staker xs 0 = Inr f"
    and "addStake e pay staker s = Inr ((s', txns), n)"
  shows "s' = s\<lparr> stakers := Some (xs[f - 1 := \<lparr> account = staker, balance = payAmount pay,
                                               totalRewarded = 0, rewardTokenBalance = 0,
                                               entryTime = n \<rparr>]),
                 numStakers := numStakers s + 1,
                 totalAlgoStaked := totalAlgoStaked s + payAmount pay \<rparr>
       \<and> staker \<noteq> zeroAddress \<and> f \<noteq> 0 \<and> minEntryStake s \<le> payAmount pay"
proof -
  from assms(3) have g: "txnSender e = appAddress e (creatingValidatorContractAppId s)"
    "staker \<noteq> zeroAddress"
    "paySender pay = appAddress e (creatingValidatorContractAppId s)"
    "payReceiver pay = thisAppAddress e"
    unfolding addStake_def assms(1) by (simp_all split: if_splits)
  from assms(3) obtain t where t: "getEntryTime e = Inr t"
    unfolding addStake_def assms(1) using g by (cases "getEntryTime e") simp_all
  show ?thesis
    using assms(3) unfolding addStake_def assms(1)
    by (simp add: g t assms(2) bindE_eq_Inr add64_Inr split: if_splits) blast?
qed

lemma addStake_ledger_ok:
  assumes r: "addStake e pay staker s = Inr ((s', txns), n)"
    and l: "ledger_ok s"
  shows "ledger_ok s'"
proof -
  from r obtain xs where xs: "stakers s = Some xs"
    by (cases "stakers s") (simp_all add: addStake_def)
  from ledger_okD [OF l xs] have t: "totalAlgoStaked s = occupiedStake xs"
    and c: "numStakers s = length (filter occupied xs)" by simp_all
  show ?thesis
  proof (cases "addStake_scan staker xs 0")
    case (Inl i)
    define y where "y = (xs ! i)\<lparr> balance := balance (xs ! i) + payAmount pay, entryTime := n \<rparr>"
    from addStake_existing [OF xs Inl r]
    have s': "s' = s\<lparr> stakers := Some (xs[i := y]),
                       totalAlgoStaked := totalAlgoStaked s + payAmount pay \<rparr>"
      and nz: "staker \<noteq> zeroAddress"
      unfolding y_def by simp_all
    from addStake_scan_Inl [OF Inl] have i: "i < length xs" and acc: "account (xs ! i) = staker"
      by simp_all
    have occ: "occupied (xs ! i)" using acc nz by (simp add: occupied_def)
    have yo: "occupied y" "balance y = balance (xs ! i) + payAmount pay"
      using occ by (simp_all add: y_def occupied_def)
    have "occupiedStake (xs[i := y]) + balance (xs ! i)
            = occupiedStake xs + (balance (xs ! i) + payAmount pay)"
      using occupiedStake_update [OF i, of y] occ yo by simp
    then have S: "occupiedStake (xs[i := y]) = occupiedStake xs + payAmount pay"
      by linarith
    have C: "length (filter occupied (xs[i := y])) = length (filter occupied xs)"
      using occupiedCount_update [OF i, of y] occ yo by simp
    show ?thesis
    proof (rule ledger_okI)
      show "stakers s' = Some (xs[i := y])" by (simp add: s')
      show "totalAlgoStaked s' = occupiedStake (xs[i := y])" by (simp add: s' S t)
      show "numStakers s' = length (filter occupied (xs[i := y]))" by (simp add: s' C c)
    qed
  next
    case (Inr f)
    define y where "y = \<lparr> account = staker, balance = payAmount pay, totalRewarded = 0,
                          rewardTokenBalance = 0, entryTime = n \<rparr>"
    define j where "j = f - 1"
    from addStake_new [OF xs Inr r]
    have s': "s' = s\<lparr> stakers := Some (xs[j := y]),
                       numStakers := numStakers s + 1,
                       totalAlgoStaked := totalAlgoStaked s + payAmount pay \<rparr>"
      and nz: "staker \<noteq> zeroAddress" and f: "f \<noteq> 0"
      unfolding y_def j_def by simp_all
    from addStake_scan_Inr [OF Inr f] have i: "j < length xs"
      and acc: "account (xs ! j) = zeroAddress"
      unfolding j_def by simp_all
    have occ: "\<not> occupied (xs ! j)" using acc by (simp add: occupied_def)
    have yo: "occupied y" "balance y = payAmount pay"
      using nz by (simp_all add: y_def occupied_def)
    have S: "occupiedStake (xs[j := y]) = occupiedStake xs + payAmount pay"
      using occupiedStake_update [OF i, of y] occ yo by simp
    have C: "length (filter occupied (xs[j := y])) = length (filter occupied xs) + 1"
      using occupiedCount_update [OF i, of y] occ yo by simp
    show ?thesis
    proof (rule ledger_okI)
      show "stakers s' = Some (xs[j := y])" by (simp add: s')
      show "totalAlgoStaked s' = occupiedStake (xs[j := y])" by (simp add: s' S t)
      show "numStakers s' = length (filter occupied (xs[j := y]))" by (simp add: s' C c)
    qed
  qed
qed

lemma callResult_ledger_ok:
  assumes "callResult e c s = Inr s'" "ledger_ok s" "txnSender e \<noteq> zeroAddress"
  shows "ledger_ok s'"
proof (cases c)
  case (AddStake pay staker)
  with assms(1) obtain txns n where "addStake e pay staker s = Inr ((s', txns), n)"
    by (cases "addStake e pay staker s") (auto simp: callResult_def)
  then show ?thesis using assms(2) by (rule addStake_ledger_ok)
next
  case (RemoveStake amt)
  with assms(1) obtain txns where "removeStake e amt s = Inr (s', txns)"
    by (cases "removeStake e amt s") (auto simp: callResult_def)
  then show ?thesis using assms(2,3) by (rule removeStake_ledger_ok)
next
  case ClaimTokens
  with assms(1) obtain txns where "claimTokens e s = Inr (s', txns)"
    by (cases "claimTokens e s") (auto simp: callResult_def)
  then show ?thesis using assms(2) by (rule claimTokens_ledger_ok)
next
  case EpochBalanceUpdate
  with assms(1) obtain r where "epochBalanceUpdate e s = Inr r" "s' = outPool r"
    by (cases "epochBalanceUpdate e s") (auto simp: callResult_def)
  then show ?thesis using assms(2) by (simp add: epochBalanceUpdate_ledger_ok)
qed

lemma stateAfter_ledger_ok:
  assumes "ledger_ok s" "txnSender (fst ec) \<noteq> zeroAddress"
  shows "ledger_ok (stateAfter s ec)"
proof (cases "callResult (fst ec) (snd ec) s")
  case (Inl err)
  then show ?thesis using assms(1) by (simp add: stateAfter_def)
next
  case (Inr s')
  then have "ledger_ok s'" using assms by (rule callResult_ledger_ok)
  then show ?thesis using Inr by (simp add: stateAfter_def)
qed

lemma runCalls_ledger_ok:
  "ledger_ok s \<Longrightarrow> \<forall>ec \<in> set calls. txnSender (fst ec) \<noteq> zeroAddress \<Longrightarrow>
     ledger_ok (runCalls s calls)"
  unfolding runCalls_def
proof (induction calls arbitrary: s)
  case Nil
  then show ?case by simp
next
  case (Cons ec calls)
  from Cons.prems have "ledger_ok (stateAfter s ec)"
    by (simp add: stateAfter_ledger_ok)
  from Cons.IH [OF this] Cons.prems(2) show ?case by simp
qed

lemma fresh_pool_ledger_ok:
  assumes "createApplication e0 creatingContractId vId pId minStake = Inr s0"
    and "initStorage e1 mbrPayment s0 = Inr (s1, txns)"
  shows "ledger_ok s1"
proof -
  from assms(1) have z: "numStakers s0 = 0" "totalAlgoStaked s0 = 0"
    by (auto simp: createApplication_def split: if_splits)
  from assms(2) have s1: "s1 = s0\<lparr> stakers := Some (replicate (MAX_STAKERS_PER_POOL e1) emptySlot) \<rparr>"
    by (auto simp: initStorage_def Let_def split: if_splits)
  have "filter occupied (replicate k emptySlot) = []" for k
    by (induction k) (simp_all add: occupied_def emptySlot_def)
  then show ?thesis
    unfolding s1 using z by (simp add: ledger_ok_def occupiedStake_def)
qed

section \<open>Commission, saturation and the credits of the specification\<close>

lemma passB_pays_wholeEpoch:
  "0 < ep \<Longrightarrow> passB_pays now ep c = spec_wholeEpoch now ep c"
  by (auto simp: passB_pays_def spec_wholeEpoch_def occupied_def)

lemma passB_credit_spec:
  "0 < ep \<Longrightarrow> passB_credit now ep N R c = spec_fullCredit now ep N R c"
  by (simp add: passB_credit_def spec_fullCredit_def passB_pays_wholeEpoch)

lemma code_credits_spec:
  assumes "0 < ep"
  shows "code_credits now ep T R xs = spec_credits now ep T R xs"
proof -
  have h: "passB_credit now ep = spec_fullCredit now ep"
    using assms by (intro ext) (simp add: passB_credit_spec)
  show ?thesis
    unfolding code_credits_def spec_credits_def h by (rule refl)
qed

lemma epochCommission_Inr:
  assumes "epochCommission e cfg vs sat S = Inr (R, comm, exc, ptx)"
  shows "R + comm + exc = S
       \<and> (sat < vsTotalAlgoStaked vs \<longrightarrow>
            comm = 0 \<and> R = S * sat div vsTotalAlgoStaked vs
            \<and> exc = S - S * sat div vsTotalAlgoStaked vs
            \<and> ptx = [Payment exc (feeSinkAddr e) ''pool saturated, excess to fee sink''])
       \<and> (\<not> sat < vsTotalAlgoStaked vs \<longrightarrow>
            exc = 0 \<and> comm = S * percentToValidator cfg div 1000000)"
proof (cases "sat < vsTotalAlgoStaked vs")
  case True
  with assms show ?thesis
    unfolding epochCommission_def
    by (auto simp: bindE_eq_Inr sub64_Inr wideRatio_Inr)
next
  case False
  show ?thesis
  proof (cases "percentToValidator cfg = 0")
    case True
    with False assms show ?thesis
      unfolding epochCommission_def by simp
  next
    case nz: False
    from False nz assms obtain c where
      c: "wideRatio [S, percentToValidator cfg] [1000000] = Inr c"
      and le: "c \<le> S"
      and res: "R = S - c" "comm = c" "exc = 0"
      unfolding epochCommission_def Let_def
      by (auto simp: bindE_eq_Inr sub64_Inr split: if_splits)
    from c have "c = S * percentToValidator cfg div 1000000"
      by (simp add: wideRatio_Inr)
    with False le res show ?thesis by simp
  qed
qed

section \<open>Bounds on the credits\<close>

lemma floor_sum_times:
  "sum_list (map (\<lambda>c. w c * R div N) ys) * N \<le> (R::nat) * sum_list (map w ys)"
proof (induction ys)
  case Nil
  then show ?case by simp
next
  case (Cons y ys)
  have "w y * R div N * N \<le> w y * R"
    by (rule div_times_less_eq_dividend)
  then have "w y * R div N * N \<le> R * w y"
    by (simp add: mult.commute)
  with Cons.IH show ?case
    by (simp add: add_mult_distrib add_mult_distrib2 add_mono)
qed

lemma floor_sum_upper:
  assumes "0 < N" "sum_list (map w ys) \<le> N"
  shows "sum_list (map (\<lambda>c. w c * R div N) ys) \<le> (R::nat)"
proof -
  have "sum_list (map (\<lambda>c. w c * R div N) ys) * N \<le> R * sum_list (map w ys)"
    by (rule floor_sum_times)
  also have "\<dots> \<le> R * N"
    using assms(2) by (rule mult_le_mono2)
  finally show ?thesis
    using assms(1) by simp
qed

lemma floor_sum_rest:
  assumes "0 < N"
  shows "(R::nat) * sum_list (map w ys)
           \<le> sum_list (map (\<lambda>c. w c * R div N) ys) * N + length ys * (N - 1)"
proof (induction ys)
  case Nil
  then show ?case by simp
next
  case (Cons y ys)
  define q where "q = w y * R div N"
  define m where "m = w y * R mod N"
  have "w y * R = q * N + m"
    unfolding q_def m_def by simp
  moreover have "m < N"
    unfolding m_def using assms by simp
  ultimately have "w y * R \<le> q * N + (N - 1)"
    by linarith
  then have "R * w y \<le> w y * R div N * N + (N - 1)"
    unfolding q_def by (simp add: mult.commute)
  with Cons.IH show ?case
    by (simp add: add_mult_distrib add_mult_distrib2)
qed

lemma floor_sum_lower:
  assumes "0 < N" "sum_list (map w ys) = N"
  shows "(R::nat) < sum_list (map (\<lambda>c. w c * R div N) ys) + length ys"
proof -
  let ?F = "sum_list (map (\<lambda>c. w c * R div N) ys)"
  have n: "0 < length ys"
    using assms by (cases ys) auto
  have "R * N \<le> ?F * N + length ys * (N - 1)"
    using floor_sum_rest [OF assms(1), of R w ys] assms(2) by simp
  also have "length ys * (N - 1) < length ys * N"
    using n assms(1) by simp
  finally have "R * N < (?F + length ys) * N"
    by (simp add: add_mult_distrib)
  then show ?thesis by simp
qed


lemma sum_passB_credit:
  "sum_list (map (passB_credit now ep N R) xs)
     = sum_list (map (\<lambda>c. balance c * R div N) (filter (passB_pays now ep) xs))"
  by (induction xs) (simp_all add: passB_credit_def)

lemma stake_split:
  "occupiedStake xs = spec_partialStakersTotalStake now ep xs
                      + sum_list (map balance (filter (spec_wholeEpoch now ep) xs))"
proof (induction xs)
  case Nil
  then show ?case by simp
next
  case (Cons c cs)
  have "occupied c \<longleftrightarrow> (spec_partial now ep c \<or> spec_future now c) \<or> spec_wholeEpoch now ep c"
    by (auto simp: spec_partial_def spec_future_def spec_wholeEpoch_def)
  moreover have "\<not> ((spec_partial now ep c \<or> spec_future now c) \<and> spec_wholeEpoch now ep c)"
    by (auto simp: spec_partial_def spec_future_def spec_wholeEpoch_def)
  ultimately show ?case
    using Cons.IH
    by (auto simp: occupiedStake_Cons spec_partialStakersTotalStake_Cons)
qed

lemma passB_stake_le_whole:
  "sum_list (map balance (filter (passB_pays now ep) xs))
     \<le> sum_list (map balance (filter (spec_wholeEpoch now ep) xs))"
proof (induction xs)
  case Nil
  then show ?case by simp
next
  case (Cons c cs)
  have "passB_pays now ep c \<Longrightarrow> spec_wholeEpoch now ep c"
    by (auto simp: passB_pays_def spec_wholeEpoch_def occupied_def)
  with Cons.IH show ?case by auto
qed

lemma passB_stake_eq_whole:
  "0 < ep \<Longrightarrow> filter (passB_pays now ep) xs = filter (spec_wholeEpoch now ep) xs"
  by (induction xs) (simp_all add: passB_pays_wholeEpoch)

text \<open>What both passes credit never exceeds the reward, on a consistent ledger.\<close>

lemma code_credits_upper:
  assumes T: "T = occupiedStake xs"
    and A: "sum_list (spec_passA now ep T R xs) \<le> R"
  shows "sum_list (code_credits now ep T R xs) \<le> R"
proof (cases "T - spec_partialStakersTotalStake now ep xs = 0")
  case True
  then show ?thesis using A by (simp add: code_credits_none)
next
  case False
  let ?N = "T - spec_partialStakersTotalStake now ep xs"
  let ?R' = "R - sum_list (spec_passA now ep T R xs)"
  have N: "?N = sum_list (map balance (filter (spec_wholeEpoch now ep) xs))"
    unfolding T using stake_split [of xs now ep] by simp
  have "sum_list (map balance (filter (passB_pays now ep) xs)) \<le> ?N"
    unfolding N by (rule passB_stake_le_whole)
  moreover from False have "0 < ?N" by simp
  ultimately have "sum_list (map (\<lambda>c. balance c * ?R' div ?N) (filter (passB_pays now ep) xs)) \<le> ?R'"
    by (rule floor_sum_upper [rotated])
  then have B: "sum_list (map (passB_credit now ep ?N ?R') xs) \<le> ?R'"
    by (simp only: sum_passB_credit)
  have "sum_list (code_credits now ep T R xs)
          = sum_list (spec_passA now ep T R xs) + sum_list (map (passB_credit now ep ?N ?R') xs)"
    using False by (simp add: code_credits_some sum_list_map2_add)
  with A B show ?thesis by linarith
qed

text \<open>
  With a stake that was in the pool for the whole epoch, the two passes leave less than
  one unit per whole-epoch staker undistributed.
\<close>

lemma code_credits_lower:
  assumes T: "T = occupiedStake xs"
    and A: "sum_list (spec_passA now ep T R xs) \<le> R"
    and ep: "0 < ep"
    and N: "spec_partialStakersTotalStake now ep xs < T"
  shows "R < sum_list (code_credits now ep T R xs)
               + length (filter (spec_wholeEpoch now ep) xs)"
proof -
  let ?N = "T - spec_partialStakersTotalStake now ep xs"
  let ?R' = "R - sum_list (spec_passA now ep T R xs)"
  let ?W = "filter (spec_wholeEpoch now ep) xs"
  have Nw: "sum_list (map balance ?W) = ?N"
    unfolding T using stake_split [of xs now ep] by simp
  from N have pos: "0 < ?N" by simp
  have "?R' < sum_list (map (\<lambda>c. balance c * ?R' div ?N) ?W) + length ?W"
    using pos Nw by (rule floor_sum_lower)
  then have B: "?R' < sum_list (map (passB_credit now ep ?N ?R') xs) + length ?W"
    by (simp only: sum_passB_credit passB_stake_eq_whole [OF ep])
  from N have "?N \<noteq> 0" by simp
  then have "sum_list (code_credits now ep T R xs)
          = sum_list (spec_passA now ep T R xs) + sum_list (map (passB_credit now ep ?N ?R') xs)"
    by (simp add: code_credits_some sum_list_map2_add)
  with A B show ?thesis by linarith
qed

lemma length_whole_le_occupied:
  "length (filter (spec_wholeEpoch now ep) xs) \<le> length (filter occupied xs)"
proof (induction xs)
  case Nil
  then show ?case by simp
next
  case (Cons c cs)
  have "spec_wholeEpoch now ep c \<Longrightarrow> occupied c"
    by (simp add: spec_wholeEpoch_def)
  with Cons.IH show ?case by auto
qed

section \<open>The token budget of an epoch\<close>




lemma length_code_credits [simp]: "length (code_credits now ep T R xs) = length xs"
  by (simp add: code_credits_def Let_def)





section \<open>Epoch gating\<close>

text \<open>
  C3 (as amended).  An epoch update fails, and leaves the pool unchanged, whenever the
  time since \<open>lastPayout\<close> is shorter than the configured epoch
  (\<open>payoutEveryXMins \<times> 60\<close> seconds).  The check is made whenever \<open>lastPayout\<close> exists,
  and \<^verbatim>\<open>createApplication\<close> always creates it, set to the creation time: the first
  update of a pool is gated like every other one.  Every successful update sets
  \<open>lastPayout\<close> to the current time and adds exactly one to \<open>epochNumber\<close>, whatever the
  payouts it computed.
\<close>

theorem epoch_gate_and_advance:
  "(lastPayout s = Some lp
      \<and> latestTimestamp e < lp + payoutEveryXMins (getValidatorConfig e (validatorId s)) * 60
      \<longrightarrow> isl (epochBalanceUpdate e s) \<and> stateAfter s (e, EpochBalanceUpdate) = s)
   \<and> (epochBalanceUpdate e s = Inr r
      \<longrightarrow> lastPayout (outPool r) = Some (latestTimestamp e)
          \<and> epochNumber (outPool r) = epochNumber s + 1)
   \<and> (createApplication e0 creatingContractId vId pId minStake = Inr s0
      \<longrightarrow> lastPayout s0 = Some (latestTimestamp e0))"
proof (intro conjI impI)
  assume a: "lastPayout s = Some lp
      \<and> latestTimestamp e < lp + payoutEveryXMins (getValidatorConfig e (validatorId s)) * 60"
  then show early: "isl (epochBalanceUpdate e s)"
    by (simp add: epochBalanceUpdate_early)
  then show "stateAfter s (e, EpochBalanceUpdate) = s"
    by (cases "epochBalanceUpdate e s") (simp_all add: stateAfter_def callResult_def)
next
  assume "epochBalanceUpdate e s = Inr r"
  then show "lastPayout (outPool r) = Some (latestTimestamp e)"
    by (rule epochBalanceUpdate_Inr) simp
next
  assume "epochBalanceUpdate e s = Inr r"
  then show "epochNumber (outPool r) = epochNumber s + 1"
    by (rule epochBalanceUpdate_Inr) simp
next
  assume "createApplication e0 creatingContractId vId pId minStake = Inr s0"
  then show "lastPayout s0 = Some (latestTimestamp e0)"
    by (auto simp: createApplication_def split: if_splits)
qed

text \<open>
  An update 30 seconds after the last payout is refused.  An update one epoch after it
  succeeds although it pays nothing: the surplus is zero and the token budget of 1000
  finds one staker who entered this very second and one whose entry time lies ahead.
\<close>

theorem epoch_gate_and_advance_witness:
  "lastPayout (examplePool [stakerSlot 21 100000000 0, stakerSlot 22 100000000 0] 2 200000000)
     = Some 1000
   \<and> isl (epochBalanceUpdate (exampleEnv plainConfig 200000000 3 1030 220100000)
            (examplePool [stakerSlot 21 100000000 0, stakerSlot 22 100000000 0] 2 200000000))
   \<and> stateAfter (examplePool [stakerSlot 21 100000000 0, stakerSlot 22 100000000 0] 2 200000000)
        (exampleEnv plainConfig 200000000 3 1030 220100000, EpochBalanceUpdate)
      = examplePool [stakerSlot 21 100000000 0, stakerSlot 22 100000000 0] 2 200000000
   \<and> \<not> isl (epochBalanceUpdate (exampleEnv tokenConfig 200000000 3 1060 200100000)
            (examplePool [stakerSlot 21 100000000 1060, stakerSlot 22 100000000 2000] 2 200000000))
   \<and> outIncreasedStake (projr (epochBalanceUpdate (exampleEnv tokenConfig 200000000 3 1060 200100000)
        (examplePool [stakerSlot 21 100000000 1060, stakerSlot 22 100000000 2000] 2 200000000))) = 0
   \<and> outTokenRewardPaidOut (projr (epochBalanceUpdate (exampleEnv tokenConfig 200000000 3 1060 200100000)
        (examplePool [stakerSlot 21 100000000 1060, stakerSlot 22 100000000 2000] 2 200000000))) = 0
   \<and> outValidatorCommissionPaidOut (projr (epochBalanceUpdate (exampleEnv tokenConfig 200000000 3 1060 200100000)
        (examplePool [stakerSlot 21 100000000 1060, stakerSlot 22 100000000 2000] 2 200000000))) = 0
   \<and> lastPayout (outPool (projr (epochBalanceUpdate (exampleEnv tokenConfig 200000000 3 1060 200100000)
        (examplePool [stakerSlot 21 100000000 1060, stakerSlot 22 100000000 2000] 2 200000000))))
      = Some 1060
   \<and> epochNumber (outPool (projr (epochBalanceUpdate (exampleEnv tokenConfig 200000000 3 1060 200100000)
        (examplePool [stakerSlot 21 100000000 1060, stakerSlot 22 100000000 2000] 2 200000000))))
      = 1
   \<and> lastPayout (projr (createApplication (exampleEnv plainConfig 0 1007 1000 0) 7 1 1 1000000))
      = Some 1000"
proof -
  let ?early = "exampleEnv plainConfig 200000000 3 1030 220100000"
  let ?P = "examplePool [stakerSlot 21 100000000 0, stakerSlot 22 100000000 0] 2 200000000"
  let ?E = "exampleEnv tokenConfig 200000000 3 1060 200100000"
  let ?Q = "examplePool [stakerSlot 21 100000000 1060, stakerSlot 22 100000000 2000] 2 200000000"
  let ?C = "exampleEnv plainConfig 0 1007 1000 0"
  have h1: "lastPayout ?P = Some 1000
      \<and> latestTimestamp ?early < 1000 + payoutEveryXMins (getValidatorConfig ?early (validatorId ?P)) * 60"
    by (simp add: example_defs)
  have ok: "\<not> isl (epochBalanceUpdate ?E ?Q)"
    by (simp add: epoch_defs arith_defs example_defs)
  then have h2: "epochBalanceUpdate ?E ?Q = Inr (projr (epochBalanceUpdate ?E ?Q))"
    by (cases "epochBalanceUpdate ?E ?Q") simp_all
  have c: "\<not> isl (createApplication ?C 7 1 1 1000000)"
    by (simp add: createApplication_def example_defs)
  then have h3: "createApplication ?C 7 1 1 1000000 = Inr (projr (createApplication ?C 7 1 1 1000000))"
    by (cases "createApplication ?C 7 1 1 1000000") simp_all
  have zero: "outIncreasedStake (projr (epochBalanceUpdate ?E ?Q)) = 0
      \<and> outTokenRewardPaidOut (projr (epochBalanceUpdate ?E ?Q)) = 0
      \<and> outValidatorCommissionPaidOut (projr (epochBalanceUpdate ?E ?Q)) = 0"
    by (simp add: epoch_defs arith_defs example_defs)
  have t1: "isl (epochBalanceUpdate ?early ?P) \<and> stateAfter ?P (?early, EpochBalanceUpdate) = ?P"
    using epoch_gate_and_advance [where s = "?P" and lp = 1000 and e = "?early"] h1 by blast
  have t2: "lastPayout (outPool (projr (epochBalanceUpdate ?E ?Q))) = Some (latestTimestamp ?E)
      \<and> epochNumber (outPool (projr (epochBalanceUpdate ?E ?Q))) = epochNumber ?Q + 1"
    using epoch_gate_and_advance [where s = "?Q" and e = "?E"
        and r = "projr (epochBalanceUpdate ?E ?Q)"] h2 by blast
  have t3: "lastPayout (projr (createApplication ?C 7 1 1 1000000)) = Some (latestTimestamp ?C)"
    using epoch_gate_and_advance [where ?e0.0 = "?C" and creatingContractId = 7 and vId = 1
        and pId = 1 and minStake = 1000000
        and ?s0.0 = "projr (createApplication ?C 7 1 1 1000000)"] h3 by blast
  have n1: "latestTimestamp ?E = 1060" "epochNumber ?Q = 0" "latestTimestamp ?C = 1000"
    "lastPayout ?P = Some 1000"
    by (simp_all add: example_defs)
  show ?thesis
    using t1 t2 t3 ok zero n1 by simp
qed

text \<open>
  The first epoch update of a pool is gated as well.  The pool is created at time 1000,
  its storage is initialised, two stakers enter, and the pool account holds a surplus of
  20 Algo; the first update, asked for at time 1030 with an epoch of 60 seconds, is
  refused by the interval check.
\<close>

theorem first_epoch_update_gated_counterexample:
  "createApplication (exampleEnv plainConfig 0 1007 1000 0) 7 1 1 1000000
     = Inr ((examplePool [] 0 0)\<lparr> stakers := None \<rparr>)
   \<and> initStorage (exampleEnv plainConfig 0 1007 1000 0)
        \<lparr> paySender = 1007, payReceiver = 1077, payAmount = 156500 \<rparr>
        ((examplePool [] 0 0)\<lparr> stakers := None \<rparr>)
     = Inr (examplePool [emptySlot, emptySlot] 0 0, [])
   \<and> addStake (exampleEnv plainConfig 0 1007 1000 0)
        \<lparr> paySender = 1007, payReceiver = 1077, payAmount = 100000000 \<rparr> 21
        (examplePool [emptySlot, emptySlot] 0 0)
     = Inr ((examplePool [stakerSlot 21 100000000 1896, emptySlot] 1 100000000, []), 1896)
   \<and> addStake (exampleEnv plainConfig 100000000 1007 1000 0)
        \<lparr> paySender = 1007, payReceiver = 1077, payAmount = 100000000 \<rparr> 22
        (examplePool [stakerSlot 21 100000000 1896, emptySlot] 1 100000000)
     = Inr ((examplePool [stakerSlot 21 100000000 1896, stakerSlot 22 100000000 1896] 2 200000000,
             []), 1896)
   \<and> epochNumber
        (examplePool [stakerSlot 21 100000000 1896, stakerSlot 22 100000000 1896] 2 200000000) = 0
   \<and> epochBalanceUpdate (exampleEnv plainConfig 200000000 3 1030 220100000)
        (examplePool [stakerSlot 21 100000000 1896, stakerSlot 22 100000000 1896] 2 200000000)
     = Inl (AssertFailed ''Can't payout earlier than last payout + epoch time'')"
  by (simp add: createApplication_def initStorage_def costForBoxStorage_def addStake_def
      getEntryTime_def ALGORAND_STAKING_BLOCK_DELAY_def AVG_BLOCK_TIME_SECS_def emptySlot_def
      epoch_defs arith_defs example_defs replicate_two)

section \<open>The minimum algo reward\<close>

text \<open>
  C9.  When the token reward of the epoch is zero, and it is zero in particular for a
  validator without a reward token, the update fails unless the surplus exceeds
  1,000,000 microAlgo.  When the token reward is not zero the update never fails with the
  minimum-reward assertion, whatever the surplus.
\<close>

theorem minimum_algo_reward:
  "(epochTokenRewardAvail e s = Inr 0 \<and> epochSurplus e s = Inr S \<and> S \<le> 1000000
      \<longrightarrow> isl (epochBalanceUpdate e s))
   \<and> (rewardTokenId (getValidatorConfig e (validatorId s)) = 0
      \<longrightarrow> epochTokenRewardAvail e s = Inr 0)
   \<and> (epochTokenRewardAvail e s = Inr t \<and> 0 < t
      \<longrightarrow> epochBalanceUpdate e s \<noteq> Inl (AssertFailed ''Reward needs to be at least 1 ALGO''))"
proof (intro conjI impI)
  assume "epochTokenRewardAvail e s = Inr 0 \<and> epochSurplus e s = Inr S \<and> S \<le> 1000000"
  then show "isl (epochBalanceUpdate e s)"
    using floor_enforced by blast
next
  assume "rewardTokenId (getValidatorConfig e (validatorId s)) = 0"
  then show "epochTokenRewardAvail e s = Inr 0"
    by (simp add: epochTokenRewardAvail_def)
next
  assume "epochTokenRewardAvail e s = Inr t \<and> 0 < t"
  then show "epochBalanceUpdate e s \<noteq> Inl (AssertFailed ''Reward needs to be at least 1 ALGO'')"
    using floor_error_only_from_floor [of e s] by auto
qed

text \<open>
  Without a token, a surplus of half an Algo is refused; with a token budget of 1000, a
  surplus of zero is accepted.
\<close>

theorem minimum_algo_reward_witness:
  "rewardTokenId (getValidatorConfig (exampleEnv plainConfig 200000000 3 1060 200600000) 1) = 0
   \<and> epochTokenRewardAvail (exampleEnv plainConfig 200000000 3 1060 200600000)
        (examplePool [stakerSlot 21 100000000 0, stakerSlot 22 100000000 0] 2 200000000) = Inr 0
   \<and> epochSurplus (exampleEnv plainConfig 200000000 3 1060 200600000)
        (examplePool [stakerSlot 21 100000000 0, stakerSlot 22 100000000 0] 2 200000000)
      = Inr 500000
   \<and> isl (epochBalanceUpdate (exampleEnv plainConfig 200000000 3 1060 200600000)
        (examplePool [stakerSlot 21 100000000 0, stakerSlot 22 100000000 0] 2 200000000))
   \<and> epochTokenRewardAvail (exampleEnv tokenConfig 200000000 3 1060 200100000)
        (examplePool [stakerSlot 21 100000000 0, stakerSlot 22 100000000 0] 2 200000000) = Inr 1000
   \<and> epochSurplus (exampleEnv tokenConfig 200000000 3 1060 200100000)
        (examplePool [stakerSlot 21 100000000 0, stakerSlot 22 100000000 0] 2 200000000) = Inr 0
   \<and> epochBalanceUpdate (exampleEnv tokenConfig 200000000 3 1060 200100000)
        (examplePool [stakerSlot 21 100000000 0, stakerSlot 22 100000000 0] 2 200000000)
      \<noteq> Inl (AssertFailed ''Reward needs to be at least 1 ALGO'')
   \<and> \<not> isl (epochBalanceUpdate (exampleEnv tokenConfig 200000000 3 1060 200100000)
        (examplePool [stakerSlot 21 100000000 0, stakerSlot 22 100000000 0] 2 200000000))"
proof -
  let ?N = "exampleEnv plainConfig 200000000 3 1060 200600000"
  let ?T = "exampleEnv tokenConfig 200000000 3 1060 200100000"
  let ?P = "examplePool [stakerSlot 21 100000000 0, stakerSlot 22 100000000 0] 2 200000000"
  have a: "rewardTokenId (getValidatorConfig ?N 1) = 0" "validatorId ?P = 1"
    by (simp_all add: example_defs)
  have b: "epochSurplus ?N ?P = Inr 500000" "epochSurplus ?T ?P = Inr 0"
    by (simp_all add: epochSurplus_def arith_defs example_defs)
  have c: "epochTokenRewardAvail ?T ?P = Inr 1000"
    by (simp add: epoch_defs arith_defs example_defs)
  have d: "\<not> isl (epochBalanceUpdate ?T ?P)"
    by (simp add: epoch_defs arith_defs example_defs)
  have t0: "epochTokenRewardAvail ?N ?P = Inr 0"
    using minimum_algo_reward [where e = "?N" and s = "?P"] a by simp
  have t1: "isl (epochBalanceUpdate ?N ?P)"
    using minimum_algo_reward [where e = "?N" and s = "?P" and S = 500000] t0 b by simp
  have t2: "epochBalanceUpdate ?T ?P \<noteq> Inl (AssertFailed ''Reward needs to be at least 1 ALGO'')"
    using minimum_algo_reward [where e = "?T" and s = "?P" and t = 1000] c by simp
  show ?thesis using a b c d t0 t1 t2 by simp
qed

section \<open>The token reward budget\<close>




section \<open>Ledger integrity\<close>

text \<open>
  C2.  Start from a pool that \<^verbatim>\<open>createApplication\<close> and \<^verbatim>\<open>initStorage\<close> have just set up,
  and run any sequence of \<^verbatim>\<open>addStake\<close>, \<^verbatim>\<open>removeStake\<close>, \<^verbatim>\<open>claimTokens\<close> and
  \<^verbatim>\<open>epochBalanceUpdate\<close> calls, failed calls included, each sent by an account other
  than the zero address.  After every call \<open>totalAlgoStaked\<close> is the sum of the balances
  of the occupied slots, and \<open>numStakers\<close> is the number of occupied slots.
\<close>

theorem ledger_integrity:
  assumes "createApplication e0 creatingContractId vId pId minStake = Inr s0"
    and "initStorage e1 mbrPayment s0 = Inr (s1, txns)"
    and "\<forall>ec \<in> set calls. txnSender (fst ec) \<noteq> zeroAddress"
  shows "ledger_ok (runCalls s1 calls)"
  using fresh_pool_ledger_ok [OF assms(1,2)] assms(3)
  by (rule runCalls_ledger_ok)

text \<open>The example run ends with two occupied slots holding 122,999,999 microAlgo.\<close>

theorem ledger_integrity_witness:
  "createApplication (exampleEnv plainConfig 0 1007 1000 0) 7 1 1 1000000
     = Inr ((examplePool [] 0 0)\<lparr> stakers := None \<rparr>)
   \<and> initStorage (exampleEnv plainConfig 0 1007 1000 0)
        \<lparr> paySender = 1007, payReceiver = 1077, payAmount = 156500 \<rparr>
        ((examplePool [] 0 0)\<lparr> stakers := None \<rparr>)
     = Inr (examplePool [emptySlot, emptySlot] 0 0, [])
   \<and> list_all (\<lambda>ec. txnSender (fst ec) \<noteq> zeroAddress) exampleCalls
   \<and> ledger_ok (runCalls (examplePool [emptySlot, emptySlot] 0 0) exampleCalls)
   \<and> numStakers (runCalls (examplePool [emptySlot, emptySlot] 0 0) exampleCalls) = 2
   \<and> totalAlgoStaked (runCalls (examplePool [emptySlot, emptySlot] 0 0) exampleCalls) = 122999999"
proof -
  have h1: "createApplication (exampleEnv plainConfig 0 1007 1000 0) 7 1 1 1000000
     = Inr ((examplePool [] 0 0)\<lparr> stakers := None \<rparr>)"
    by (simp add: createApplication_def example_defs)
  have h2: "initStorage (exampleEnv plainConfig 0 1007 1000 0)
        \<lparr> paySender = 1007, payReceiver = 1077, payAmount = 156500 \<rparr>
        ((examplePool [] 0 0)\<lparr> stakers := None \<rparr>)
     = Inr (examplePool [emptySlot, emptySlot] 0 0, [])"
    by (simp add: initStorage_def costForBoxStorage_def example_defs u64_def replicate_two)
  have h3: "\<forall>ec \<in> set exampleCalls. txnSender (fst ec) \<noteq> zeroAddress"
    by (simp add: exampleCalls_def example_defs zeroAddress_def)
  have e: "numStakers (runCalls (examplePool [emptySlot, emptySlot] 0 0) exampleCalls) = 2
      \<and> totalAlgoStaked (runCalls (examplePool [emptySlot, emptySlot] 0 0) exampleCalls) = 122999999"
    by (simp add: exampleCalls_def ledger_defs epoch_defs arith_defs example_defs)
  have h4: "list_all (\<lambda>ec. txnSender (fst ec) \<noteq> zeroAddress) exampleCalls"
    using h3 by (simp add: list_all_iff)
  show ?thesis
    using ledger_integrity [OF h1 h2 h3] h1 h2 h4 e by blast
qed

section \<open>The minimum stake on removal\<close>

text \<open>
  C7 (as amended).  Let the caller hold slot \<open>i\<close> (the first slot with the caller's
  account).  A removal that would leave a balance above zero and below \<open>minEntryStake\<close>
  fails and changes nothing.  On a consistent ledger, a removal of the whole balance, asked for as
  amount 0 or as the balance itself, is never stopped by the minimum: it issues the
  transfer of the staker's reward tokens (in pool 1, when there are any), the payment of
  the balance and the \<^verbatim>\<open>stakeRemoved\<close> call of the registry, and it succeeds exactly when
  the chain accepts all of them.  Then the staker is paid the balance, the slot is cleared
  to the zero address, and \<open>numStakers\<close> goes down by one.  When one of the inner
  transactions is refused the call aborts, and an aborted call changes nothing.
\<close>

theorem removeStake_minimum_boundary:
  assumes "stakers s = Some xs" and "findStaker (txnSender e) xs 0 = Some i"
  shows "(amt \<noteq> 0 \<and> amt < balance (xs ! i) \<and> balance (xs ! i) - amt < minEntryStake s
            \<longrightarrow> isl (removeStake e amt s) \<and> stateAfter s (e, RemoveStake amt) = s)
       \<and> (ledger_ok s \<and> txnSender e \<noteq> zeroAddress \<and> (amt = 0 \<or> amt = balance (xs ! i))
            \<longrightarrow> 1 \<le> numStakers s
              \<and> (let txns =
                       (if rewardTokenBalance (xs ! i) > 0 \<and> poolId s = 1
                        then [AssetTransfer (rewardTokenId (getValidatorConfig e (validatorId s)))
                                (txnSender e) (rewardTokenBalance (xs ! i))]
                        else []) @
                       [Payment (balance (xs ! i)) (txnSender e) ''unstaked'',
                        CallStakeRemoved (thisPoolKey e s) (txnSender e) (balance (xs ! i))
                          (rewardTokenBalance (xs ! i)) True]
                  in removeStake e amt s =
                       (if list_all (innerTxnAccepted e) txns
                        then Inr (s\<lparr> stakers := Some (xs[i := (xs ! i)\<lparr> account := zeroAddress,
                                          balance := 0, totalRewarded := 0, rewardTokenBalance := 0 \<rparr>]),
                                     numStakers := numStakers s - 1,
                                     totalAlgoStaked := totalAlgoStaked s - balance (xs ! i) \<rparr>,
                                  txns)
                        else Inl InnerTxnRefused))
              \<and> (isl (removeStake e amt s) \<longrightarrow> stateAfter s (e, RemoveStake amt) = s))"
proof (intro conjI impI)
  assume a: "amt \<noteq> 0 \<and> amt < balance (xs ! i) \<and> balance (xs ! i) - amt < minEntryStake s"
  then show f: "isl (removeStake e amt s)"
    unfolding removeStake_found [OF assms] Let_def by auto
  then show "stateAfter s (e, RemoveStake amt) = s"
    by (cases "removeStake e amt s") (simp_all add: stateAfter_def callResult_def)
next
  assume b: "ledger_ok s \<and> txnSender e \<noteq> zeroAddress \<and> (amt = 0 \<or> amt = balance (xs ! i))"
  from findStaker_0 [OF assms(2)] have i: "i < length xs" and acc: "account (xs ! i) = txnSender e"
    by simp_all
  from acc b have occ: "occupied (xs ! i)" by (simp add: occupied_def)
  from b ledger_okD [OF _ assms(1)] have t: "totalAlgoStaked s = occupiedStake xs"
    and n: "numStakers s = length (filter occupied xs)" by simp_all
  from occupied_slot_bounds [OF i occ] t n
  have le: "balance (xs ! i) \<le> totalAlgoStaked s" and one: "1 \<le> numStakers s"
    by simp_all
  show "1 \<le> numStakers s" by (rule one)
  from b have amt: "(if amt = 0 then balance (xs ! i) else amt) = balance (xs ! i)"
    by auto
  show "let txns =
                       (if rewardTokenBalance (xs ! i) > 0 \<and> poolId s = 1
                        then [AssetTransfer (rewardTokenId (getValidatorConfig e (validatorId s)))
                                (txnSender e) (rewardTokenBalance (xs ! i))]
                        else []) @
                       [Payment (balance (xs ! i)) (txnSender e) ''unstaked'',
                        CallStakeRemoved (thisPoolKey e s) (txnSender e) (balance (xs ! i))
                          (rewardTokenBalance (xs ! i)) True]
                  in removeStake e amt s =
                       (if list_all (innerTxnAccepted e) txns
                        then Inr (s\<lparr> stakers := Some (xs[i := (xs ! i)\<lparr> account := zeroAddress,
                                          balance := 0, totalRewarded := 0, rewardTokenBalance := 0 \<rparr>]),
                                     numStakers := numStakers s - 1,
                                     totalAlgoStaked := totalAlgoStaked s - balance (xs ! i) \<rparr>,
                                  txns)
                        else Inl InnerTxnRefused)"
    unfolding removeStake_found [OF assms] Let_def amt
    using le one by simp
next
  assume "isl (removeStake e amt s)"
  then show "stateAfter s (e, RemoveStake amt) = s"
    by (cases "removeStake e amt s") (simp_all add: stateAfter_def callResult_def)
qed

text \<open>
  Staker 22 holds 100 Algo with a minimum of 1 Algo, and the chain accepts every inner
  transaction: taking out 99.5 Algo is refused, taking out everything (as 0 or as 100
  Algo) frees the slot.  When the staker also holds 500 reward tokens, the removal sends
  them first.
\<close>

theorem removeStake_minimum_boundary_witness:
  "stakers (examplePool [stakerSlot 21 100000000 0, stakerSlot 22 100000000 0] 2 200000000)
     = Some [stakerSlot 21 100000000 0, stakerSlot 22 100000000 0]
   \<and> findStaker (txnSender (exampleEnv plainConfig 0 22 1010 0))
        [stakerSlot 21 100000000 0, stakerSlot 22 100000000 0] 0 = Some 1
   \<and> ledger_ok (examplePool [stakerSlot 21 100000000 0, stakerSlot 22 100000000 0] 2 200000000)
   \<and> isl (removeStake (exampleEnv plainConfig 0 22 1010 0) 99500000
            (examplePool [stakerSlot 21 100000000 0, stakerSlot 22 100000000 0] 2 200000000))
   \<and> removeStake (exampleEnv plainConfig 0 22 1010 0) 0
        (examplePool [stakerSlot 21 100000000 0, stakerSlot 22 100000000 0] 2 200000000)
      = Inr (examplePool [stakerSlot 21 100000000 0, stakerSlot 0 0 0] 1 100000000,
             [Payment 100000000 22 ''unstaked'',
              CallStakeRemoved \<lparr> keyId = 1, keyPoolId = 1, keyPoolAppId = 77 \<rparr>
                22 100000000 0 True])
   \<and> removeStake (exampleEnv plainConfig 0 22 1010 0) 100000000
        (examplePool [stakerSlot 21 100000000 0, stakerSlot 22 100000000 0] 2 200000000)
      = Inr (examplePool [stakerSlot 21 100000000 0, stakerSlot 0 0 0] 1 100000000,
             [Payment 100000000 22 ''unstaked'',
              CallStakeRemoved \<lparr> keyId = 1, keyPoolId = 1, keyPoolAppId = 77 \<rparr>
                22 100000000 0 True])
   \<and> removeStake (exampleEnv tokenConfig 0 22 1010 0) 0
        (examplePool [stakerSlot 21 100000000 0,
                      (stakerSlot 22 100000000 0)\<lparr> rewardTokenBalance := 500 \<rparr>] 2 200000000)
      = Inr (examplePool [stakerSlot 21 100000000 0, stakerSlot 0 0 0] 1 100000000,
             [AssetTransfer 5 22 500,
              Payment 100000000 22 ''unstaked'',
              CallStakeRemoved \<lparr> keyId = 1, keyPoolId = 1, keyPoolAppId = 77 \<rparr>
                22 100000000 500 True])"
proof -
  let ?E = "exampleEnv plainConfig 0 22 1010 0"
  let ?xs = "[stakerSlot 21 100000000 0, stakerSlot 22 100000000 0]"
  let ?P = "examplePool ?xs 2 200000000"
  let ?T = "exampleEnv tokenConfig 0 22 1010 0"
  let ?ys = "[stakerSlot 21 100000000 0,
              (stakerSlot 22 100000000 0)\<lparr> rewardTokenBalance := 500 \<rparr>]"
  let ?Q = "examplePool ?ys 2 200000000"
  have h1: "stakers ?P = Some ?xs"
    by (simp add: example_defs)
  have h2: "findStaker (txnSender ?E) ?xs 0 = Some 1"
    by (simp add: example_defs)
  have l: "ledger_ok ?P"
    by (simp add: ledger_ok_def occupiedStake_def occupied_def zeroAddress_def example_defs)
  have nz: "txnSender ?E \<noteq> zeroAddress"
    by (simp add: example_defs zeroAddress_def)
  have b: "balance (?xs ! 1) = 100000000" "minEntryStake ?P = 1000000"
    by (simp_all add: example_defs)
  note t = removeStake_minimum_boundary [OF h1 h2]
  have a: "isl (removeStake ?E 99500000 ?P)"
    using t [of 99500000] b by simp
  have r0: "removeStake ?E 0 ?P
      = Inr (examplePool [stakerSlot 21 100000000 0, stakerSlot 0 0 0] 1 100000000,
             [Payment 100000000 22 ''unstaked'',
              CallStakeRemoved \<lparr> keyId = 1, keyPoolId = 1, keyPoolAppId = 77 \<rparr>
                22 100000000 0 True])"
    using t [of 0] l nz by (simp add: example_defs thisPoolKey_def zeroAddress_def)
  have r1: "removeStake ?E 100000000 ?P
      = Inr (examplePool [stakerSlot 21 100000000 0, stakerSlot 0 0 0] 1 100000000,
             [Payment 100000000 22 ''unstaked'',
              CallStakeRemoved \<lparr> keyId = 1, keyPoolId = 1, keyPoolAppId = 77 \<rparr>
                22 100000000 0 True])"
    using t [of 100000000] l nz by (simp add: example_defs thisPoolKey_def zeroAddress_def)
  have k1: "stakers ?Q = Some ?ys"
    by (simp add: example_defs)
  have k2: "findStaker (txnSender ?T) ?ys 0 = Some 1"
    by (simp add: example_defs)
  have lq: "ledger_ok ?Q"
    by (simp add: ledger_ok_def occupiedStake_def occupied_def zeroAddress_def example_defs)
  have nzt: "txnSender ?T \<noteq> zeroAddress"
    by (simp add: example_defs zeroAddress_def)
  have r2: "removeStake ?T 0 ?Q
      = Inr (examplePool [stakerSlot 21 100000000 0, stakerSlot 0 0 0] 1 100000000,
             [AssetTransfer 5 22 500,
              Payment 100000000 22 ''unstaked'',
              CallStakeRemoved \<lparr> keyId = 1, keyPoolId = 1, keyPoolAppId = 77 \<rparr>
                22 100000000 500 True])"
    using removeStake_minimum_boundary [OF k1 k2, of 0] lq nzt
    by (simp add: example_defs thisPoolKey_def zeroAddress_def)
  show ?thesis
    using h1 h2 l a r0 r1 r2 by blast
qed

text \<open>
  The claim that a full removal always succeeds fails.  In pool 1 of a validator that
  pays reward token 5, an epoch update credits 500 tokens to each of two stakers of 100
  Algo.  Staker 22 has not opted in to the token, so the chain refuses the transfer of the
  500 tokens: the removal of the whole stake (as 0 or as the balance of 109 Algo) aborts
  and the ledger stays as it was.
\<close>

theorem full_removal_refused_counterexample:
  "runCalls (examplePool [stakerSlot 21 100000000 0, stakerSlot 22 100000000 0] 2 200000000)
     [(exampleEnv tokenConfig 200000000 3 1060 220100000, EpochBalanceUpdate)]
     = (examplePool
          [\<lparr> account = 21, balance = 109000000, totalRewarded = 9000000,
              rewardTokenBalance = 500, entryTime = 0 \<rparr>,
           \<lparr> account = 22, balance = 109000000, totalRewarded = 9000000,
              rewardTokenBalance = 500, entryTime = 0 \<rparr>] 2 218000000)
         \<lparr> lastPayout := Some 1060, epochNumber := 1 \<rparr>
   \<and> ledger_ok ((examplePool
          [\<lparr> account = 21, balance = 109000000, totalRewarded = 9000000,
              rewardTokenBalance = 500, entryTime = 0 \<rparr>,
           \<lparr> account = 22, balance = 109000000, totalRewarded = 9000000,
              rewardTokenBalance = 500, entryTime = 0 \<rparr>] 2 218000000)
         \<lparr> lastPayout := Some 1060, epochNumber := 1 \<rparr>)
   \<and> removeStake
        ((exampleEnv tokenConfig 0 22 1070 0)
           \<lparr> innerTxnAccepted := (\<lambda>t. t \<noteq> AssetTransfer 5 22 500) \<rparr>) 0
        ((examplePool
          [\<lparr> account = 21, balance = 109000000, totalRewarded = 9000000,
              rewardTokenBalance = 500, entryTime = 0 \<rparr>,
           \<lparr> account = 22, balance = 109000000, totalRewarded = 9000000,
              rewardTokenBalance = 500, entryTime = 0 \<rparr>] 2 218000000)
         \<lparr> lastPayout := Some 1060, epochNumber := 1 \<rparr>)
      = Inl InnerTxnRefused
   \<and> removeStake
        ((exampleEnv tokenConfig 0 22 1070 0)
           \<lparr> innerTxnAccepted := (\<lambda>t. t \<noteq> AssetTransfer 5 22 500) \<rparr>) 109000000
        ((examplePool
          [\<lparr> account = 21, balance = 109000000, totalRewarded = 9000000,
              rewardTokenBalance = 500, entryTime = 0 \<rparr>,
           \<lparr> account = 22, balance = 109000000, totalRewarded = 9000000,
              rewardTokenBalance = 500, entryTime = 0 \<rparr>] 2 218000000)
         \<lparr> lastPayout := Some 1060, epochNumber := 1 \<rparr>)
      = Inl InnerTxnRefused"
  by (simp add: ledger_defs epoch_defs arith_defs example_defs ledger_ok_def occupiedStake_def
      occupied_def)

section \<open>A second slot for a staker who already has one\<close>

text \<open>
  C1 fails on the code.  The loop of \<^verbatim>\<open>addStake\<close> leaves at the first empty slot
  (\<^verbatim>\<open>firstEmpty = i + 1; break\<close>), so a staker whose slot lies behind an empty one is not
  found and enters a second time.  Stakers 21 and 22 enter a pool with two slots, 21
  leaves, and 22 adds 5 Algo: the 5 Algo go to slot 0, a second slot for account 22,
  instead of raising the balance of slot 1.
\<close>

theorem addStake_second_slot_for_same_staker:
  "runCalls (examplePool [emptySlot, emptySlot] 0 0)
     [(exampleEnv plainConfig 0 1007 1000 0,
         AddStake \<lparr> paySender = 1007, payReceiver = 1077, payAmount = 100000000 \<rparr> 21),
      (exampleEnv plainConfig 0 1007 1000 0,
         AddStake \<lparr> paySender = 1007, payReceiver = 1077, payAmount = 100000000 \<rparr> 22),
      (exampleEnv plainConfig 0 21 1010 0, RemoveStake 0)]
     = examplePool [stakerSlot 0 0 1896, stakerSlot 22 100000000 1896] 1 100000000
   \<and> distinctOccupied (examplePool [stakerSlot 0 0 1896, stakerSlot 22 100000000 1896] 1 100000000)
   \<and> runCalls (examplePool [stakerSlot 0 0 1896, stakerSlot 22 100000000 1896] 1 100000000)
       [(exampleEnv plainConfig 0 1007 1020 0,
           AddStake \<lparr> paySender = 1007, payReceiver = 1077, payAmount = 5000000 \<rparr> 22)]
     = examplePool [stakerSlot 22 5000000 1916, stakerSlot 22 100000000 1896] 2 105000000
   \<and> \<not> distinctOccupied
         (examplePool [stakerSlot 22 5000000 1916, stakerSlot 22 100000000 1896] 2 105000000)"
  by (simp add: ledger_defs distinctOccupied_def occupied_def arith_defs example_defs
      zeroAddress_def)

section \<open>The two-pass distribution\<close>

text \<open>
  C6 (as amended).  For an epoch of positive length (\<open>payoutEveryXMins > 0\<close>), a
  successful epoch update credits every slot as the specification describes.  With \<open>R\<close> the algo reward left after saturation and
  commission and \<open>tok\<close> the token budget, pass A credits each occupied slot whose time
  in the pool is below the epoch with
  \<open>balance \<times> reward \<times> timePercentage div (totalStaked \<times> 1000)\<close>,
  \<open>timePercentage = timeInPool \<times> 1000 div epochSeconds\<close>, takes each credit from the
  reward before the next slot, and counts the balance of such a slot and of a slot with
  a future entry time as partial stake; pass B credits each slot that was in the pool
  for the whole epoch with
  \<open>balance \<times> remainingReward div (totalStaked - partialStakersTotalStake)\<close>, and
  nothing when that reduced total is zero.  \<open>spec_credits\<close> is this description; the
  slots, the stake added and the tokens paid that the code computes are the ones it
  gives, for the algo reward and for the token reward.
\<close>

theorem two_pass_distribution:
  assumes run: "epochBalanceUpdate e s = Inr r"
    and xs: "stakers s = Some xs"
    and mins: "0 < payoutEveryXMins (getValidatorConfig e (validatorId s))"
    and S: "epochSurplus e s = Inr S"
    and sat: "algoSaturationLevel e = Inr sat"
    and com: "epochCommission e (getValidatorConfig e (validatorId s))
                (getValidatorState e (validatorId s)) sat S = Inr (R, comm, exc, ptx)"
    and tok: "epochTokenRewardAvail e s = Inr tok"
  shows "stakers (outPool r)
           = Some (applyCredits xs
               (spec_credits (latestTimestamp e)
                  (payoutEveryXMins (getValidatorConfig e (validatorId s)) * 60)
                  (totalAlgoStaked s) R xs)
               (spec_credits (latestTimestamp e)
                  (payoutEveryXMins (getValidatorConfig e (validatorId s)) * 60)
                  (totalAlgoStaked s) tok xs))
       \<and> outIncreasedStake r
           = sum_list (spec_credits (latestTimestamp e)
                  (payoutEveryXMins (getValidatorConfig e (validatorId s)) * 60)
                  (totalAlgoStaked s) R xs)
       \<and> outTokenRewardPaidOut r
           = sum_list (spec_credits (latestTimestamp e)
                  (payoutEveryXMins (getValidatorConfig e (validatorId s)) * 60)
                  (totalAlgoStaked s) tok xs)"
  using run
proof (rule epochBalanceUpdate_Inr)
  fix ep S' sat' tok' R' comm' exc' ptx' ys xs' p
  assume ep: "epochInSecsOf (getValidatorConfig e (validatorId s)) = Inr ep"
    and S': "epochSurplus e s = Inr S'"
    and sat': "algoSaturationLevel e = Inr sat'"
    and tok': "epochTokenRewardAvail e s = Inr tok'"
    and com': "epochCommission e (getValidatorConfig e (validatorId s))
                (getValidatorState e (validatorId s)) sat' S' = Inr (R', comm', exc', ptx')"
    and ys: "stakers s = Some ys"
    and d: "distribute (latestTimestamp e) ep (totalAlgoStaked s) ys R' tok' = Inr (xs', p)"
    and out: "outPool r = s\<lparr> lastPayout := Some (latestTimestamp e), epochNumber := epochNumber s + 1,
                      stakers := Some xs', totalAlgoStaked := totalAlgoStaked s + increasedStake p \<rparr>"
    and inc: "outIncreasedStake r = increasedStake p"
    and tp: "outTokenRewardPaidOut r = tokenRewardPaidOut p"
  have epv: "ep = payoutEveryXMins (getValidatorConfig e (validatorId s)) * 60"
    using ep by (simp add: epochInSecsOf_def mul64_Inr)
  with mins have pos: "0 < ep" by simp
  have same: "S' = S" "sat' = sat" "tok' = tok" "ys = xs"
    using S S' sat sat' tok tok' xs ys by simp_all
  with com com' have R: "R' = R" by simp
  have D: "xs' = applyCredits xs (spec_credits (latestTimestamp e) ep (totalAlgoStaked s) R xs)
                   (spec_credits (latestTimestamp e) ep (totalAlgoStaked s) tok xs)"
    "increasedStake p = sum_list (spec_credits (latestTimestamp e) ep (totalAlgoStaked s) R xs)"
    "tokenRewardPaidOut p = sum_list (spec_credits (latestTimestamp e) ep (totalAlgoStaked s) tok xs)"
    using distribute_Inr [OF d] unfolding same R code_credits_spec [OF pos] by blast+
  have st: "stakers (outPool r) = Some xs'"
    unfolding out by simp
  show ?thesis
    unfolding st inc tp epv [symmetric] D by simp
qed

text \<open>
  Two stakers of 100 Algo each, one of them for half of the epoch, and 18 Algo to
  distribute: 4.5 Algo for the half-epoch staker, 13.5 Algo for the other.
\<close>

theorem two_pass_distribution_witness:
  "stakers (examplePool [stakerSlot 21 100000000 1030, stakerSlot 22 100000000 0] 2 200000000)
     = Some [stakerSlot 21 100000000 1030, stakerSlot 22 100000000 0]
   \<and> epochSurplus (exampleEnv plainConfig 200000000 3 1060 220100000)
        (examplePool [stakerSlot 21 100000000 1030, stakerSlot 22 100000000 0] 2 200000000)
     = Inr 20000000
   \<and> epochCommission (exampleEnv plainConfig 200000000 3 1060 220100000) plainConfig
        (exampleState 200000000) 200000000000000 20000000
     = Inr (18000000, 2000000, 0, [Payment 2000000 12 ''validator reward''])
   \<and> spec_credits 1060 60 200000000 18000000
        [stakerSlot 21 100000000 1030, stakerSlot 22 100000000 0] = [4500000, 13500000]
   \<and> stakers (outPool (projr (epochBalanceUpdate
          (exampleEnv plainConfig 200000000 3 1060 220100000)
          (examplePool [stakerSlot 21 100000000 1030, stakerSlot 22 100000000 0] 2 200000000))))
     = Some [\<lparr> account = 21, balance = 104500000, totalRewarded = 4500000,
                rewardTokenBalance = 0, entryTime = 1030 \<rparr>,
             \<lparr> account = 22, balance = 113500000, totalRewarded = 13500000,
                rewardTokenBalance = 0, entryTime = 0 \<rparr>]
   \<and> outIncreasedStake (projr (epochBalanceUpdate
          (exampleEnv plainConfig 200000000 3 1060 220100000)
          (examplePool [stakerSlot 21 100000000 1030, stakerSlot 22 100000000 0] 2 200000000)))
     = 18000000"
proof -
  let ?E = "exampleEnv plainConfig 200000000 3 1060 220100000"
  let ?xs = "[stakerSlot 21 100000000 1030, stakerSlot 22 100000000 0]"
  let ?P = "examplePool ?xs 2 200000000"
  have ok: "\<not> isl (epochBalanceUpdate ?E ?P)"
    by (simp add: epoch_defs arith_defs example_defs)
  then have run: "epochBalanceUpdate ?E ?P = Inr (projr (epochBalanceUpdate ?E ?P))"
    by (cases "epochBalanceUpdate ?E ?P") simp_all
  have xs: "stakers ?P = Some ?xs"
    by (simp add: example_defs)
  have cfg: "getValidatorConfig ?E (validatorId ?P) = plainConfig"
    "getValidatorState ?E (validatorId ?P) = exampleState 200000000"
    "latestTimestamp ?E = 1060" "totalAlgoStaked ?P = 200000000"
    "payoutEveryXMins plainConfig = 1"
    by (simp_all add: example_defs)
  have mins: "0 < payoutEveryXMins (getValidatorConfig ?E (validatorId ?P))"
    by (simp add: cfg)
  have S: "epochSurplus ?E ?P = Inr 20000000"
    by (simp add: epochSurplus_def arith_defs example_defs)
  have sat: "algoSaturationLevel ?E = Inr 200000000000000"
    by (simp add: algoSaturationLevel_def getCurrentOnlineStake_def arith_defs example_defs)
  have com: "epochCommission ?E plainConfig (exampleState 200000000) 200000000000000 20000000
      = Inr (18000000, 2000000, 0, [Payment 2000000 12 ''validator reward''])"
    by (simp add: epochCommission_def arith_defs example_defs)
  have tok: "epochTokenRewardAvail ?E ?P = Inr 0"
    by (simp add: epochTokenRewardAvail_def example_defs)
  have sc: "spec_credits 1060 60 200000000 18000000 ?xs = [4500000, 13500000]"
    "spec_credits 1060 60 200000000 0 ?xs = [0, 0]"
    by (simp_all add: spec_defs stakerSlot_def)
  have com': "epochCommission ?E (getValidatorConfig ?E (validatorId ?P))
        (getValidatorState ?E (validatorId ?P)) 200000000000000 20000000
      = Inr (18000000, 2000000, 0, [Payment 2000000 12 ''validator reward''])"
    unfolding cfg by (rule com)
  note t = two_pass_distribution [OF run xs mins S sat com' tok]
  have "stakers (outPool (projr (epochBalanceUpdate ?E ?P)))
      = Some (applyCredits ?xs [4500000, 13500000] [0, 0])"
    "outIncreasedStake (projr (epochBalanceUpdate ?E ?P)) = 18000000"
    using t unfolding cfg by (simp_all add: sc)
  then show ?thesis
    using xs S com sc(1) by (simp add: applyCredits_def creditStaker_def stakerSlot_def)
qed

text \<open>
  Without a positive epoch length the description fails.  With \<open>payoutEveryXMins = 0\<close> the
  epoch has length zero and every staker who has entered has been in the pool for the
  whole epoch.  Staker 21 entered at the current time 1060, staker 22 at time 0, each with
  100 Algo, and 18 Algo are left after the commission: the description credits 9 Algo to
  each.  The second loop of the code tests \<^verbatim>\<open>entryTime < curTime\<close> and passes over staker
  21, so the update credits 9 Algo to staker 22 and nothing to staker 21.
\<close>

theorem zero_epoch_skips_staker_counterexample:
  "payoutEveryXMins (getValidatorConfig
       (exampleEnv (plainConfig\<lparr> payoutEveryXMins := 0 \<rparr>) 200000000 3 1060 220100000)
       (validatorId (examplePool [stakerSlot 21 100000000 1060, stakerSlot 22 100000000 0]
          2 200000000))) = 0
   \<and> epochSurplus
        (exampleEnv (plainConfig\<lparr> payoutEveryXMins := 0 \<rparr>) 200000000 3 1060 220100000)
        (examplePool [stakerSlot 21 100000000 1060, stakerSlot 22 100000000 0] 2 200000000)
     = Inr 20000000
   \<and> epochCommission
        (exampleEnv (plainConfig\<lparr> payoutEveryXMins := 0 \<rparr>) 200000000 3 1060 220100000)
        (plainConfig\<lparr> payoutEveryXMins := 0 \<rparr>) (exampleState 200000000) 200000000000000 20000000
     = Inr (18000000, 2000000, 0, [Payment 2000000 12 ''validator reward''])
   \<and> list_all (spec_wholeEpoch 1060 0)
        [stakerSlot 21 100000000 1060, stakerSlot 22 100000000 0]
   \<and> spec_credits 1060 0 200000000 18000000
        [stakerSlot 21 100000000 1060, stakerSlot 22 100000000 0] = [9000000, 9000000]
   \<and> \<not> isl (epochBalanceUpdate
        (exampleEnv (plainConfig\<lparr> payoutEveryXMins := 0 \<rparr>) 200000000 3 1060 220100000)
        (examplePool [stakerSlot 21 100000000 1060, stakerSlot 22 100000000 0] 2 200000000))
   \<and> stakers (outPool (projr (epochBalanceUpdate
        (exampleEnv (plainConfig\<lparr> payoutEveryXMins := 0 \<rparr>) 200000000 3 1060 220100000)
        (examplePool [stakerSlot 21 100000000 1060, stakerSlot 22 100000000 0] 2 200000000))))
     = Some [\<lparr> account = 21, balance = 100000000, totalRewarded = 0,
                rewardTokenBalance = 0, entryTime = 1060 \<rparr>,
             \<lparr> account = 22, balance = 109000000, totalRewarded = 9000000,
                rewardTokenBalance = 0, entryTime = 0 \<rparr>]
   \<and> outIncreasedStake (projr (epochBalanceUpdate
        (exampleEnv (plainConfig\<lparr> payoutEveryXMins := 0 \<rparr>) 200000000 3 1060 220100000)
        (examplePool [stakerSlot 21 100000000 1060, stakerSlot 22 100000000 0] 2 200000000)))
     = 9000000"
  by (simp add: epoch_defs arith_defs example_defs spec_defs)

section \<open>Saturation\<close>



section \<open>Conservation of the reward\<close>

text \<open>
  C4 (as amended).  Take a successful epoch update on a consistent ledger, with an epoch
  of positive length and surplus \<open>S\<close>, in which some stake has been in the pool for
  the whole epoch (the total staked exceeds the stake counted as partial).  Then the
  commission, the stake added to the stakers and the excess sent to the fee sink sum to
  at most \<open>S\<close>, and fall short of \<open>S\<close> by less than one microAlgo for each staker who
  was in the pool for the whole epoch, hence by less than \<open>numStakers\<close>.
\<close>

theorem reward_conservation:
  assumes run: "epochBalanceUpdate e s = Inr r"
    and l: "ledger_ok s"
    and xs: "stakers s = Some xs"
    and S: "epochSurplus e s = Inr S"
    and mins: "0 < payoutEveryXMins (getValidatorConfig e (validatorId s))"
    and full: "spec_partialStakersTotalStake (latestTimestamp e)
                 (payoutEveryXMins (getValidatorConfig e (validatorId s)) * 60) xs
               < totalAlgoStaked s"
  shows "outValidatorCommissionPaidOut r + outIncreasedStake r + outExcessToFeeSink r \<le> S
       \<and> S < outValidatorCommissionPaidOut r + outIncreasedStake r + outExcessToFeeSink r
               + length (filter (spec_wholeEpoch (latestTimestamp e)
                   (payoutEveryXMins (getValidatorConfig e (validatorId s)) * 60)) xs)
       \<and> length (filter (spec_wholeEpoch (latestTimestamp e)
                   (payoutEveryXMins (getValidatorConfig e (validatorId s)) * 60)) xs)
           \<le> numStakers s"
  using run
proof (rule epochBalanceUpdate_Inr)
  fix ep S' sat tok R comm exc ptx ys xs' p
  assume ep: "epochInSecsOf (getValidatorConfig e (validatorId s)) = Inr ep"
    and S': "epochSurplus e s = Inr S'"
    and com: "epochCommission e (getValidatorConfig e (validatorId s))
                (getValidatorState e (validatorId s)) sat S' = Inr (R, comm, exc, ptx)"
    and ys: "stakers s = Some ys"
    and d: "distribute (latestTimestamp e) ep (totalAlgoStaked s) ys R tok = Inr (xs', p)"
    and inc: "outIncreasedStake r = increasedStake p"
    and oc: "outValidatorCommissionPaidOut r = comm"
    and oe: "outExcessToFeeSink r = exc"
  let ?now = "latestTimestamp e"
  have epv: "ep = payoutEveryXMins (getValidatorConfig e (validatorId s)) * 60"
    using ep by (simp add: epochInSecsOf_def mul64_Inr)
  with mins have pos: "0 < ep" by simp
  have same: "S' = S" "ys = xs"
    using S S' xs ys by simp_all
  have sum: "R + comm + exc = S"
    using epochCommission_Inr [OF com] unfolding same by simp
  have T: "totalAlgoStaked s = occupiedStake xs"
    and n: "numStakers s = length (filter occupied xs)"
    using ledger_okD [OF l xs] by simp_all
  have A: "sum_list (spec_passA ?now ep (totalAlgoStaked s) R xs) \<le> R"
    and I: "increasedStake p = sum_list (code_credits ?now ep (totalAlgoStaked s) R xs)"
    using distribute_Inr [OF d] unfolding same by blast+
  have up: "increasedStake p \<le> R"
    unfolding I using T A by (rule code_credits_upper)
  have N: "spec_partialStakersTotalStake ?now ep xs < totalAlgoStaked s"
    using full unfolding epv .
  have lo: "R < increasedStake p + length (filter (spec_wholeEpoch ?now ep) xs)"
    unfolding I using T A pos N by (rule code_credits_lower)
  have cnt: "length (filter (spec_wholeEpoch ?now ep) xs) \<le> numStakers s"
    unfolding n by (rule length_whole_le_occupied)
  show ?thesis
    unfolding oc oe inc epv [symmetric]
    using sum up lo cnt by linarith
qed

text \<open>
  A surplus of 20,000,003 microAlgo and two whole-epoch stakers: 20,000,002 are paid out.
\<close>

theorem reward_conservation_witness:
  "ledger_ok (examplePool [stakerSlot 21 100000000 0, stakerSlot 22 100000000 0] 2 200000000)
   \<and> epochSurplus (exampleEnv plainConfig 200000000 3 1060 220100003)
        (examplePool [stakerSlot 21 100000000 0, stakerSlot 22 100000000 0] 2 200000000)
     = Inr 20000003
   \<and> spec_partialStakersTotalStake 1060 60 [stakerSlot 21 100000000 0, stakerSlot 22 100000000 0]
       = 0
   \<and> length (filter (spec_wholeEpoch 1060 60)
         [stakerSlot 21 100000000 0, stakerSlot 22 100000000 0]) = 2
   \<and> outValidatorCommissionPaidOut (projr (epochBalanceUpdate
          (exampleEnv plainConfig 200000000 3 1060 220100003)
          (examplePool [stakerSlot 21 100000000 0, stakerSlot 22 100000000 0] 2 200000000)))
       + outIncreasedStake (projr (epochBalanceUpdate
          (exampleEnv plainConfig 200000000 3 1060 220100003)
          (examplePool [stakerSlot 21 100000000 0, stakerSlot 22 100000000 0] 2 200000000)))
       + outExcessToFeeSink (projr (epochBalanceUpdate
          (exampleEnv plainConfig 200000000 3 1060 220100003)
          (examplePool [stakerSlot 21 100000000 0, stakerSlot 22 100000000 0] 2 200000000)))
     = 20000002
   \<and> 20000002 \<le> (20000003::nat) \<and> (20000003::nat) < 20000002 + 2"
proof -
  let ?E = "exampleEnv plainConfig 200000000 3 1060 220100003"
  let ?xs = "[stakerSlot 21 100000000 0, stakerSlot 22 100000000 0]"
  let ?P = "examplePool ?xs 2 200000000"
  let ?r = "projr (epochBalanceUpdate ?E ?P)"
  have ok: "\<not> isl (epochBalanceUpdate ?E ?P)"
    by (simp add: epoch_defs arith_defs example_defs)
  then have run: "epochBalanceUpdate ?E ?P = Inr ?r"
    by (cases "epochBalanceUpdate ?E ?P") simp_all
  have l: "ledger_ok ?P"
    by (simp add: ledger_ok_def occupiedStake_def occupied_def zeroAddress_def example_defs)
  have xs: "stakers ?P = Some ?xs"
    by (simp add: example_defs)
  have S: "epochSurplus ?E ?P = Inr 20000003"
    by (simp add: epochSurplus_def arith_defs example_defs)
  have cfg: "payoutEveryXMins (getValidatorConfig ?E (validatorId ?P)) * 60 = 60"
    "latestTimestamp ?E = 1060" "totalAlgoStaked ?P = 200000000" "numStakers ?P = 2"
    by (simp_all add: example_defs)
  have mins: "0 < payoutEveryXMins (getValidatorConfig ?E (validatorId ?P))"
    by (simp add: example_defs)
  have ps: "spec_partialStakersTotalStake 1060 60 ?xs = 0"
    by (simp add: spec_defs stakerSlot_def)
  have w: "length (filter (spec_wholeEpoch 1060 60) ?xs) = 2"
    by (simp add: spec_defs stakerSlot_def)
  have full: "spec_partialStakersTotalStake (latestTimestamp ?E)
                 (payoutEveryXMins (getValidatorConfig ?E (validatorId ?P)) * 60) ?xs
               < totalAlgoStaked ?P"
    unfolding cfg ps by simp
  have v: "outValidatorCommissionPaidOut ?r + outIncreasedStake ?r + outExcessToFeeSink ?r
             = 20000002"
    by (simp add: epoch_defs arith_defs example_defs)
  note t = reward_conservation [OF run l xs S mins full]
  have "20000002 \<le> (20000003::nat) \<and> (20000003::nat) < 20000002 + 2"
    using t unfolding cfg w v by simp
  with l S ps w v show ?thesis by blast
qed

text \<open>
  Without the condition the bound fails.  The only staker of the pool entered at time
  1000, so that the entry time is 1896; at time 1060 the stake counts as partial with no
  reward, and the second pass pays nothing.  Of the surplus of 2 Algo the validator gets
  0.2 Algo and 1.8 Algo stay in the pool: far more than one microAlgo for the one staker.
\<close>

theorem all_partial_shortfall_counterexample:
  "ledger_ok (examplePool [stakerSlot 21 100000000 1896] 1 100000000)
   \<and> epochSurplus (exampleEnv plainConfig 100000000 3 1060 102100000)
        (examplePool [stakerSlot 21 100000000 1896] 1 100000000)
     = Inr 2000000
   \<and> \<not> isl (epochBalanceUpdate (exampleEnv plainConfig 100000000 3 1060 102100000)
        (examplePool [stakerSlot 21 100000000 1896] 1 100000000))
   \<and> outValidatorCommissionPaidOut (projr (epochBalanceUpdate
          (exampleEnv plainConfig 100000000 3 1060 102100000)
          (examplePool [stakerSlot 21 100000000 1896] 1 100000000))) = 200000
   \<and> outIncreasedStake (projr (epochBalanceUpdate
          (exampleEnv plainConfig 100000000 3 1060 102100000)
          (examplePool [stakerSlot 21 100000000 1896] 1 100000000))) = 0
   \<and> outExcessToFeeSink (projr (epochBalanceUpdate
          (exampleEnv plainConfig 100000000 3 1060 102100000)
          (examplePool [stakerSlot 21 100000000 1896] 1 100000000))) = 0
   \<and> numStakers (examplePool [stakerSlot 21 100000000 1896] 1 100000000) = 1
   \<and> (200000::nat) + 0 + 0 + 1 < 2000000"
  by (simp add: ledger_ok_def occupiedStake_def occupied_def epoch_defs arith_defs example_defs)

end
